theory Spec2Isabelle
  imports Main "HOL-Library.Sublist" "HOL-Library.AList"
begin

section \<open>JavaScript strings\<close>

text \<open>
  A string is a \<^typ>\<open>string\<close>. The scripts use four string operations:
  \<^verbatim>\<open>toLowerCase\<close>, \<^verbatim>\<open>includes\<close>, \<^verbatim>\<open>trim\<close> and \<^verbatim>\<open>split(/\r?\n/)\<close>.
  A character stands for the code unit of the same number, U+0000 to U+00FF;
  text with other code units is outside the model. \<^verbatim>\<open>trim\<close> removes the white
  space and line terminators of JavaScript in that range: tab, line feed,
  vertical tab, form feed, carriage return, space and the no-break space U+00A0.
  \<^verbatim>\<open>toLowerCase\<close> maps A..Z to a..z; the scripts only test its result for
  ASCII words, which the lower-casing of the letters U+00C0 to U+00DE cannot
  change, so these are left as they are.
\<close>

definition toLowerChar :: "char \<Rightarrow> char" where
  "toLowerChar c =
     (case map_of (zip ''ABCDEFGHIJKLMNOPQRSTUVWXYZ'' ''abcdefghijklmnopqrstuvwxyz'') c of
        Some d \<Rightarrow> d
      | None \<Rightarrow> c)"

definition toLowerCase :: "string \<Rightarrow> string" where
  "toLowerCase s = map toLowerChar s"

text \<open>\<^verbatim>\<open>s.includes(t)\<close>: \<open>t\<close> occurs in \<open>s\<close> as a contiguous substring.\<close>

fun str_includes :: "string \<Rightarrow> string \<Rightarrow> bool" where
  "str_includes [] t = (t = [])"
| "str_includes (c # cs) t = (prefix t (c # cs) \<or> str_includes cs t)"

definition LF :: char where
  "LF = CHR 0x0A"

definition CR :: char where
  "CR = CHR 0x0D"

definition isSpace :: "char \<Rightarrow> bool" where
  "isSpace c = (c \<in> set [CHR '' '', CHR 0x09, LF, CHR 0x0B, CHR 0x0C, CR, CHR 0xA0])"

definition trim :: "string \<Rightarrow> string" where
  "trim s = rev (dropWhile isSpace (rev (dropWhile isSpace s)))"

text \<open>
  \<^verbatim>\<open>s.split(/\r?\n/)\<close>: the text is cut at every line feed, and a carriage return
  directly before the line feed belongs to the separator. \<open>cur\<close> holds the
  characters of the piece being read, in reverse.
\<close>

fun splitLines_from :: "string \<Rightarrow> string \<Rightarrow> string list" where
  "splitLines_from cur [] = [rev cur]"
| "splitLines_from cur (c # cs) =
     (if c = LF then rev cur # splitLines_from [] cs
      else if c = CR \<and> cs \<noteq> [] \<and> hd cs = LF then rev cur # splitLines_from [] (tl cs)
      else splitLines_from (c # cur) cs)"

definition splitLines :: "string \<Rightarrow> string list" where
  "splitLines s = splitLines_from [] s"

section \<open>Status normalizer\<close>

text \<open>
  \<^verbatim>\<open>normalizeStatus\<close> is defined three times, in excelImport.js,
  spreadsheetConverter.js and bulkUpload.js, with the same body. The argument is
  \<open>None\<close> for \<^verbatim>\<open>undefined\<close>; \<^verbatim>\<open>!status\<close> holds for \<^verbatim>\<open>undefined\<close> and for the empty
  string.
\<close>

definition normalizeStatus :: "string option \<Rightarrow> string" where
  "normalizeStatus status =
     (case status of
        None \<Rightarrow> ''Yet to Start''
      | Some s \<Rightarrow>
          if s = [] then ''Yet to Start''
          else
            let statusStr = toLowerCase s in
            if str_includes statusStr ''complete'' \<or> str_includes statusStr ''done''
               \<or> str_includes statusStr ''finish''
            then ''Completed''
            else if str_includes statusStr ''progress'' \<or> str_includes statusStr ''ongoing''
               \<or> str_includes statusStr ''partial''
            then ''In Progress''
            else ''Yet to Start'')"

text \<open>
  The normalizer as the specification words it: lower-case the input, then the
  first matching rule wins; absent input counts as the empty text.
\<close>

definition containsAny :: "string \<Rightarrow> string list \<Rightarrow> bool" where
  "containsAny s ws = list_ex (str_includes s) ws"

definition normalize_spec :: "string option \<Rightarrow> string" where
  "normalize_spec inp =
     (let l = toLowerCase (case inp of None \<Rightarrow> [] | Some s \<Rightarrow> s) in
      if containsAny l [''complete'', ''done'', ''finish''] then ''Completed''
      else if containsAny l [''progress'', ''ongoing'', ''partial''] then ''In Progress''
      else ''Yet to Start'')"

section \<open>Data model\<close>

text \<open>
  A roadmap item as the scripts build it. \<^verbatim>\<open>subTopics\<close> and \<^verbatim>\<open>projects\<close> are arrays
  of objects with the single field \<^verbatim>\<open>name\<close>, so each is the list of its names.
\<close>

record roadmap_item =
  topic :: string
  subTopics :: "string list"
  projects :: "string list"
  completionStatus :: string

record header_labels =
  topicLabel :: string
  subTopicsLabel :: string
  projectsLabel :: string
  statusLabel :: string

record 'i techStack =
  name :: string
  description :: string
  headers :: header_labels
  roadmapItems :: "'i list"

type_synonym techStackData = "roadmap_item techStack"

section \<open>The TechStack schema and the store (TechStack.js)\<close>

text \<open>
  What the schema does to a document. Casting: a string declared with
  \<^verbatim>\<open>trim: true\<close> is trimmed when it is set: \<^verbatim>\<open>name\<close>, \<^verbatim>\<open>description\<close>, the \<^verbatim>\<open>topic\<close>
  of an item and the \<^verbatim>\<open>name\<close> of every subtopic and project. The header labels
  have no such option. Validation, which \<^verbatim>\<open>save()\<close> runs first: a string
  declared \<^verbatim>\<open>required\<close> must not be empty (\<^verbatim>\<open>name\<close>, \<^verbatim>\<open>topic\<close>, the names of
  subtopics and projects), and \<^verbatim>\<open>completionStatus\<close> must be one of the three
  values of its \<^verbatim>\<open>enum\<close>.
\<close>

definition castItem :: "roadmap_item \<Rightarrow> roadmap_item" where
  "castItem item =
     item\<lparr>topic := trim (topic item), subTopics := map trim (subTopics item),
          projects := map trim (projects item)\<rparr>"

definition castTechStack :: "techStackData \<Rightarrow> techStackData" where
  "castTechStack d =
     d\<lparr>name := trim (name d), description := trim (description d),
       roadmapItems := map castItem (roadmapItems d)\<rparr>"

definition validItem :: "roadmap_item \<Rightarrow> bool" where
  "validItem item =
     (topic item \<noteq> [] \<and> list_all (\<lambda>n. n \<noteq> []) (subTopics item)
      \<and> list_all (\<lambda>n. n \<noteq> []) (projects item)
      \<and> completionStatus item \<in> set [''Yet to Start'', ''In Progress'', ''Completed''])"

definition validTechStack :: "techStackData \<Rightarrow> bool" where
  "validTechStack d = (name d \<noteq> [] \<and> list_all validItem (roadmapItems d))"

text \<open>
  The collection is the list of its documents; identifiers and time stamps are
  left out. \<^verbatim>\<open>findOne({ name })\<close> returns the first document of that name, the
  name of the filter cast by the schema like any other value of that path.
  \<^verbatim>\<open>save()\<close> throws when validation fails and stores nothing; otherwise it
  writes a found document back in place and adds a new one. The \<^verbatim>\<open>unique\<close>
  index on \<^verbatim>\<open>name\<close> cannot refuse the new document: it is only created when
  no document has its name.
\<close>

type_synonym store = "techStackData list"

datatype save_error = ValidationFailed

definition findOne :: "string \<Rightarrow> store \<Rightarrow> techStackData option" where
  "findOne n db = find (\<lambda>t. name t = trim n) db"

fun saveExisting :: "techStackData \<Rightarrow> techStackData \<Rightarrow> store \<Rightarrow> store" where
  "saveExisting old new [] = []"
| "saveExisting old new (t # ts) =
     (if t = old then new # ts else t # saveExisting old new ts)"

text \<open>
  The last statements of \<^verbatim>\<open>processExcelFile\<close> (per sheet) and of
  \<^verbatim>\<open>processCSVFile\<close>: look the name up, set three fields of the document found
  and save it, or save a new document made from \<^verbatim>\<open>techStackData\<close>.
\<close>

definition saveTechStack :: "techStackData \<Rightarrow> store \<Rightarrow> save_error + store" where
  "saveTechStack techStackData db =
     (case findOne (name techStackData) db of
        Some existingTechStack \<Rightarrow>
          (let doc = existingTechStack
                 \<lparr>description := trim (description techStackData),
                  roadmapItems := map castItem (roadmapItems techStackData),
                  headers := headers techStackData\<rparr>
           in if validTechStack doc then Inr (saveExisting existingTechStack doc db)
              else Inl ValidationFailed)
      | None \<Rightarrow>
          (let doc = castTechStack techStackData
           in if validTechStack doc then Inr (db @ [doc]) else Inl ValidationFailed))"

section \<open>Rows and cells\<close>

text \<open>
  A row is the array of its cells. The sheets of the model are the sheets whose
  cells are all text (\<^verbatim>\<open>defval: ''\<close> fills the empty ones); a sheet with a
  number, a boolean or a date in a cell, which \<^verbatim>\<open>raw: true\<close> hands over as such,
  is not one of them. \<^verbatim>\<open>row[i]\<close> is \<^verbatim>\<open>undefined\<close>, here \<open>None\<close>, when \<open>i\<close> is
  \<open>-1\<close> or past the end of the row. A text is truthy when it is defined and
  not the empty string.
\<close>

type_synonym row = "string list"

definition cellAt :: "row \<Rightarrow> int \<Rightarrow> string option" where
  "cellAt r i = (if 0 \<le> i \<and> nat i < length r then Some (r ! nat i) else None)"

definition truthy :: "string option \<Rightarrow> bool" where
  "truthy c = (case c of None \<Rightarrow> False | Some s \<Rightarrow> s \<noteq> [])"

text \<open>\<^verbatim>\<open>c || d\<close>\<close>

definition orElse :: "string option \<Rightarrow> string \<Rightarrow> string" where
  "orElse c d = (case c of None \<Rightarrow> d | Some s \<Rightarrow> if s = [] then d else s)"

text \<open>\<^verbatim>\<open>c.toString()\<close>, which the scripts call on truthy cells only.\<close>

definition cellText :: "string option \<Rightarrow> string" where
  "cellText c = (case c of None \<Rightarrow> [] | Some s \<Rightarrow> s)"

text \<open>\<^verbatim>\<open>Array.prototype.findIndex\<close>: the first position that qualifies, else \<open>-1\<close>.\<close>

fun findIndex :: "('a \<Rightarrow> bool) \<Rightarrow> 'a list \<Rightarrow> int" where
  "findIndex p [] = - 1"
| "findIndex p (x # xs) =
     (if p x then 0 else (let i = findIndex p xs in if i = - 1 then - 1 else i + 1))"

text \<open>\<^verbatim>\<open>if (!xs.some(s => s.name === x)) xs.push({ name: x })\<close>\<close>

definition pushIfAbsent :: "string list \<Rightarrow> string \<Rightarrow> string list" where
  "pushIfAbsent xs x = (if x \<in> set xs then xs else xs @ [x])"

text \<open>
  The status update both aggregators make on a record that exists:
  \<^verbatim>\<open>if (status === 'Completed' || (status === 'In Progress' && cur !== 'Completed')) cur = status\<close>
\<close>

definition updateStatus :: "string \<Rightarrow> string \<Rightarrow> string" where
  "updateStatus status cur =
     (if status = ''Completed'' \<or> (status = ''In Progress'' \<and> cur \<noteq> ''Completed'')
      then status else cur)"

text \<open>\<^verbatim>\<open>text.split(/\r?\n/).map(s => s.trim()).filter(s => s !== '')\<close>\<close>

definition splitTokens :: "string \<Rightarrow> string list" where
  "splitTokens text = filter (\<lambda>s. s \<noteq> []) (map trim (splitLines text))"

section \<open>Workbook import (excelImport.js)\<close>

record sheet =
  sheetName :: string
  rangeEndRow :: nat
  jsonData :: "row list"

text \<open>
  \<open>jsonData\<close> is what \<^verbatim>\<open>sheet_to_json\<close> returns with \<^verbatim>\<open>header: 1\<close>, and
  \<open>rangeEndRow\<close> is \<^verbatim>\<open>decode_range(worksheet['!ref'] || 'A1').e.r\<close>, the
  zero-based index of the last row of the sheet's range. Only the converter
  reads it.
\<close>

datatype skipped =
  SkippedByName | NoData | InsufficientData | MissingTopicColumn | NoRoadmapItems
  | NoValidDataRows

definition cleanHeaders :: "row \<Rightarrow> string list" where
  "cleanHeaders r = map (\<lambda>h. if h \<noteq> [] then trim h else []) r"

definition importTopicIndex :: "string list \<Rightarrow> int" where
  "importTopicIndex hs =
     findIndex (\<lambda>h. str_includes (toLowerCase h) ''topic''
                   \<and> \<not> str_includes (toLowerCase h) ''sub'') hs"

definition importSubTopicsIndex :: "string list \<Rightarrow> int" where
  "importSubTopicsIndex hs =
     findIndex (\<lambda>h. str_includes (toLowerCase h) ''sub-topic''
                   \<or> str_includes (toLowerCase h) ''subtopic'') hs"

definition importProjectIndex :: "string list \<Rightarrow> int" where
  "importProjectIndex hs =
     findIndex (\<lambda>h. str_includes (toLowerCase h) ''project''
                   \<or> str_includes (toLowerCase h) ''task''
                   \<or> str_includes (toLowerCase h) ''app'') hs"

definition importStatusIndex :: "string list \<Rightarrow> int" where
  "importStatusIndex hs = findIndex (\<lambda>h. str_includes (toLowerCase h) ''status'') hs"

record agg_state =
  topicMap :: "(string \<times> roadmap_item) list"
  currentTopic :: "string option"

text \<open>
  \<open>topicMap\<close> is the JavaScript \<^verbatim>\<open>Map\<close>, which keeps its keys in insertion order:
  an association list, \<^const>\<open>map_of\<close> for \<^verbatim>\<open>get\<close>/\<^verbatim>\<open>has\<close> and
  \<^const>\<open>AList.update\<close> for \<^verbatim>\<open>set\<close> and for the writes to the record held under
  a key.
\<close>

definition importSubTopics :: "string \<Rightarrow> roadmap_item \<Rightarrow> roadmap_item" where
  "importSubTopics subtopicsText topicObj =
     (if str_includes subtopicsText [LF] \<or> str_includes subtopicsText [CR]
      then topicObj\<lparr>subTopics := foldl pushIfAbsent (subTopics topicObj) (splitTokens subtopicsText)\<rparr>
      else topicObj\<lparr>subTopics := pushIfAbsent (subTopics topicObj) (trim subtopicsText)\<rparr>)"

definition hasText :: "string option \<Rightarrow> bool" where
  "hasText c = (truthy c \<and> trim (cellText c) \<noteq> [])"

definition importRow :: "int \<Rightarrow> int \<Rightarrow> int \<Rightarrow> int \<Rightarrow> agg_state \<Rightarrow> row \<Rightarrow> agg_state" where
  "importRow topicIndex subTopicsIndex projectIndex statusIndex st r =
     (let st1 =
        (if hasText (cellAt r topicIndex) then
           (let cur = trim (cellText (cellAt r topicIndex)) in
            \<lparr>topicMap =
               (if map_of (topicMap st) cur \<noteq> None then topicMap st
                else AList.update cur
                  \<lparr>topic = cur, subTopics = [], projects = [],
                   completionStatus =
                     (if truthy (cellAt r statusIndex) then normalizeStatus (cellAt r statusIndex)
                      else ''Yet to Start'')\<rparr> (topicMap st)),
             currentTopic = Some cur\<rparr>)
         else st)
      in case currentTopic st1 of
           None \<Rightarrow> st1
         | Some cur \<Rightarrow>
             (case map_of (topicMap st1) cur of
                None \<Rightarrow> st1
              | Some topicObj \<Rightarrow>
                  (let o1 = (if subTopicsIndex \<noteq> - 1 \<and> hasText (cellAt r subTopicsIndex)
                             then importSubTopics (cellText (cellAt r subTopicsIndex)) topicObj
                             else topicObj);
                       o2 = (if projectIndex \<noteq> - 1 \<and> hasText (cellAt r projectIndex)
                             then o1\<lparr>projects :=
                                    pushIfAbsent (projects o1) (trim (cellText (cellAt r projectIndex)))\<rparr>
                             else o1);
                       o3 = (if statusIndex \<noteq> - 1 \<and> hasText (cellAt r statusIndex)
                             then o2\<lparr>completionStatus :=
                                    updateStatus (normalizeStatus (cellAt r statusIndex))
                                      (completionStatus o2)\<rparr>
                             else o2)
                   in st1\<lparr>topicMap := AList.update cur o3 (topicMap st1)\<rparr>)))"

text \<open>
  In \<open>importRow\<close> the record is always found: \<open>currentTopic\<close> is only assigned
  next to the \<^verbatim>\<open>has\<close>/\<^verbatim>\<open>set\<close> of its key (lemma \<open>currentKnown_importRows\<close>
  below), so the branch \<open>None \<Rightarrow> st1\<close> of the lookup is never taken.
\<close>

definition importRows :: "int \<Rightarrow> int \<Rightarrow> int \<Rightarrow> int \<Rightarrow> agg_state \<Rightarrow> row list \<Rightarrow> agg_state" where
  "importRows ti si pi sti st rows = foldl (importRow ti si pi sti) st rows"

definition importItems :: "string list \<Rightarrow> row list \<Rightarrow> roadmap_item list" where
  "importItems hs rows =
     map snd (topicMap (importRows (importTopicIndex hs) (importSubTopicsIndex hs)
        (importProjectIndex hs) (importStatusIndex hs)
        \<lparr>topicMap = [], currentTopic = None\<rparr> rows))"

definition importSheet :: "string \<Rightarrow> sheet \<Rightarrow> skipped + techStackData" where
  "importSheet fileBase sh =
     (if toLowerCase (sheetName sh) = ''readme'' \<or> toLowerCase (sheetName sh) = ''instructions''
      then Inl SkippedByName
      else if length (jsonData sh) \<le> 1 then Inl NoData
      else
        (let hs = cleanHeaders (hd (jsonData sh)) in
         if importTopicIndex hs = - 1 then Inl MissingTopicColumn
         else
           (let customHeaders =
              \<lparr>topicLabel = orElse (cellAt hs (importTopicIndex hs)) ''Topic'',
               subTopicsLabel = orElse (cellAt hs (importSubTopicsIndex hs)) ''Sub-Topics'',
               projectsLabel = orElse (cellAt hs (importProjectIndex hs)) ''Project / Task'',
               statusLabel = orElse (cellAt hs (importStatusIndex hs)) ''Status''\<rparr>;
              items = importItems hs (tl (jsonData sh))
            in if length items = 0 then Inl NoRoadmapItems
               else Inr \<lparr>name = sheetName sh,
                         description = ''Imported from '' @ fileBase @ '', sheet: '' @ sheetName sh,
                         headers = customHeaders,
                         roadmapItems = items\<rparr>)))"


section \<open>CSV upload (bulkUpload.js)\<close>

text \<open>
  \<^verbatim>\<open>Papa.parse\<close> with \<^verbatim>\<open>header: true\<close> returns one object per data line, keyed by
  the trimmed header names, every value a string (\<^verbatim>\<open>dynamicTyping: false\<close>). An
  object is the list of its properties in column order; \<^verbatim>\<open>row[h]\<close> is
  \<open>map_of row h\<close>.
\<close>

type_synonym csv_row = "(string \<times> string) list"

datatype csv_error = MissingTopicsColumn | SaveFailed save_error

definition findHeader :: "string list \<Rightarrow> string list \<Rightarrow> string option" where
  "findHeader hs alternatives =
     find (\<lambda>h. list_ex (\<lambda>alt. str_includes (toLowerCase h) (toLowerCase alt)) alternatives) hs"

definition topicAlternatives :: "string list" where
  "topicAlternatives = [''topics'', ''topic'', ''technology'']"

definition subtopicAlternatives :: "string list" where
  "subtopicAlternatives = [''sub-topics'', ''subtopics'', ''sub-topic'', ''subtopic'']"

definition projectAlternatives :: "string list" where
  "projectAlternatives = [''project/app to build'', ''projects'', ''projects/apps built'']"

definition statusAlternatives :: "string list" where
  "statusAlternatives = [''status of completion'', ''status'', ''completion status'']"

text \<open>\<^verbatim>\<open>headerMapping.key && row[headerMapping.key]\<close> as a value.\<close>

definition field :: "csv_row \<Rightarrow> string option \<Rightarrow> string option" where
  "field r h = (case h of None \<Rightarrow> None | Some k \<Rightarrow> map_of r k)"

definition csvRow ::
  "string \<Rightarrow> string option \<Rightarrow> string option \<Rightarrow> string option \<Rightarrow>
   (string \<times> roadmap_item) list \<Rightarrow> csv_row \<Rightarrow> (string \<times> roadmap_item) list" where
  "csvRow hTopic hSubtopic hProject hStatus topicsMap r =
     (if \<not> truthy (map_of r hTopic) then topicsMap
      else
        (let topic' = cellText (map_of r hTopic);
             subTopics' =
               (if truthy (field r hSubtopic) then splitTokens (cellText (field r hSubtopic))
                else []);
             projects' =
               (if truthy (field r hProject) then
                  (if str_includes (cellText (field r hProject)) [LF]
                   then splitTokens (cellText (field r hProject))
                   else [trim (cellText (field r hProject))])
                else []);
             status =
               (if truthy (field r hStatus) then normalizeStatus (field r hStatus)
                else ''Yet to Start'')
         in case map_of topicsMap topic' of
              None \<Rightarrow>
                AList.update topic'
                  \<lparr>topic = topic', subTopics = subTopics', projects = projects',
                   completionStatus = status\<rparr> topicsMap
            | Some existingItem \<Rightarrow>
                AList.update topic'
                  (existingItem
                     \<lparr>subTopics := foldl pushIfAbsent (subTopics existingItem) subTopics',
                      projects := foldl pushIfAbsent (projects existingItem) projects',
                      completionStatus := updateStatus status (completionStatus existingItem)\<rparr>)
                  topicsMap))"

text \<open>\<^verbatim>\<open>Object.keys(data[0] || {})\<close>\<close>

definition csvHeaderNames :: "csv_row list \<Rightarrow> string list" where
  "csvHeaderNames data = (case data of [] \<Rightarrow> [] | r # _ \<Rightarrow> map fst r)"

definition csvItems :: "csv_row list \<Rightarrow> csv_error + roadmap_item list" where
  "csvItems data =
     (let hs = csvHeaderNames data in
      case findHeader hs topicAlternatives of
        None \<Rightarrow> Inl MissingTopicsColumn
      | Some hTopic \<Rightarrow>
          Inr (map snd (foldl (csvRow hTopic (findHeader hs subtopicAlternatives)
                 (findHeader hs projectAlternatives) (findHeader hs statusAlternatives)) [] data)))"

definition csvHeaders :: "csv_row list \<Rightarrow> header_labels" where
  "csvHeaders data =
     (let hs = csvHeaderNames data in
      \<lparr>topicLabel = (case findHeader hs topicAlternatives of None \<Rightarrow> ''Topic'' | Some h \<Rightarrow> h),
       subTopicsLabel =
         (case findHeader hs subtopicAlternatives of None \<Rightarrow> ''Sub-Topics'' | Some h \<Rightarrow> h),
       projectsLabel =
         (case findHeader hs projectAlternatives of None \<Rightarrow> ''Projects'' | Some h \<Rightarrow> h),
       statusLabel =
         (case findHeader hs statusAlternatives of None \<Rightarrow> ''Status'' | Some h \<Rightarrow> h)\<rparr>)"

definition processCSVFile ::
  "csv_row list \<Rightarrow> string \<Rightarrow> string \<Rightarrow> store \<Rightarrow> csv_error + (techStackData \<times> store)" where
  "processCSVFile data techStackName description' db =
     (case csvItems data of
        Inl e \<Rightarrow> Inl e
      | Inr items \<Rightarrow>
          (let techStackData =
             \<lparr>name = techStackName, description = description',
              headers = csvHeaders data, roadmapItems = items\<rparr>
           in case saveTechStack techStackData db of
                Inl err \<Rightarrow> Inl (SaveFailed err)
              | Inr db' \<Rightarrow> Inr (techStackData, db')))"

section \<open>Workbook to CSV (spreadsheetConverter.js)\<close>

definition findColumnIndex :: "string list \<Rightarrow> string list \<Rightarrow> int" where
  "findColumnIndex hs possibleNames =
     findIndex (\<lambda>h. list_ex (\<lambda>n. str_includes (toLowerCase h) (toLowerCase n)) possibleNames) hs"

definition convTopicsColIdx :: "string list \<Rightarrow> int" where
  "convTopicsColIdx hs = findColumnIndex hs [''topics'', ''topic'', ''technology'']"

definition convSubTopicsColIdx :: "string list \<Rightarrow> int" where
  "convSubTopicsColIdx hs =
     findColumnIndex hs [''sub-topics'', ''subtopics'', ''sub-topic'', ''subtopic'']"

definition convProjectsColIdx :: "string list \<Rightarrow> int" where
  "convProjectsColIdx hs =
     findColumnIndex hs
       [''project/app to build'', ''projects'', ''projects/apps built'', ''application'']"

definition convStatusColIdx :: "string list \<Rightarrow> int" where
  "convStatusColIdx hs = findColumnIndex hs [''status of completion'', ''status'', ''completion'']"

definition convHeaderRow :: "string list \<Rightarrow> row" where
  "convHeaderRow hs =
     [orElse (cellAt hs (convTopicsColIdx hs)) ''Topic'',
      (if convSubTopicsColIdx hs \<noteq> - 1 then cellText (cellAt hs (convSubTopicsColIdx hs))
       else ''Sub-Topics''),
      (if convProjectsColIdx hs \<noteq> - 1 then cellText (cellAt hs (convProjectsColIdx hs))
       else ''Projects''),
      (if convStatusColIdx hs \<noteq> - 1 then cellText (cellAt hs (convStatusColIdx hs))
       else ''Status'')]"

text \<open>\<^verbatim>\<open>newRow\<close>, from the four column indices.\<close>

definition newRow :: "int \<Rightarrow> int \<Rightarrow> int \<Rightarrow> int \<Rightarrow> row \<Rightarrow> row" where
  "newRow topicsColIdx subTopicsColIdx projectsColIdx statusColIdx r =
     [orElse (cellAt r topicsColIdx) [],
      (if subTopicsColIdx \<noteq> - 1 then orElse (cellAt r subTopicsColIdx) [] else []),
      (if projectsColIdx \<noteq> - 1 then orElse (cellAt r projectsColIdx) [] else []),
      (if statusColIdx \<noteq> - 1 then normalizeStatus (Some (orElse (cellAt r statusColIdx) []))
       else ''Yet to Start'')]"

definition convRow :: "string list \<Rightarrow> row \<Rightarrow> row" where
  "convRow hs r =
     newRow (convTopicsColIdx hs) (convSubTopicsColIdx hs) (convProjectsColIdx hs)
       (convStatusColIdx hs) r"

text \<open>The data rows of \<^verbatim>\<open>csvData\<close>: a row without a topic cell is left out.\<close>

definition convRows :: "string list \<Rightarrow> row list \<Rightarrow> row list" where
  "convRows hs rows =
     map (convRow hs) (filter (\<lambda>r. truthy (cellAt r (convTopicsColIdx hs))) rows)"

text \<open>
  One sheet of \<^verbatim>\<open>convertSheetsToCSV\<close>: the reason it is skipped, or \<^verbatim>\<open>csvData\<close>,
  the header row and the data rows written to the sheet's CSV file. The name of
  the file is not part of the model.
\<close>

definition convertSheet :: "sheet \<Rightarrow> skipped + row list" where
  "convertSheet sh =
     (if toLowerCase (sheetName sh) = ''readme'' \<or> toLowerCase (sheetName sh) = ''instructions''
      then Inl SkippedByName
      else if rangeEndRow sh < 2 then Inl InsufficientData
      else if length (jsonData sh) < 2 then Inl NoData
      else
        (let hs = cleanHeaders (hd (jsonData sh)) in
         if convTopicsColIdx hs = - 1 then Inl MissingTopicColumn
         else
           (let csvData = convHeaderRow hs # convRows hs (tl (jsonData sh)) in
            if length csvData \<le> 1 then Inl NoValidDataRows else Inr csvData)))"

text \<open>
  The text of the file, \<^verbatim>\<open>csvContent\<close>: a cell with a comma, a double quote, a
  line feed or a carriage return is put in double quotes with its double quotes
  doubled; the cells of a row are joined by commas and the rows by line feeds.
\<close>

definition csvCell :: "string \<Rightarrow> string" where
  "csvCell cellStr =
     (if str_includes cellStr '','' \<or> str_includes cellStr [CHR 0x22]
         \<or> str_includes cellStr [LF] \<or> str_includes cellStr [CR]
      then [CHR 0x22] @ concat (map (\<lambda>c. if c = CHR 0x22 then [c, c] else [c]) cellStr)
           @ [CHR 0x22]
      else cellStr)"

fun joinWith :: "string \<Rightarrow> string list \<Rightarrow> string" where
  "joinWith sep [] = []"
| "joinWith sep [x] = x"
| "joinWith sep (x # y # ys) = x @ sep @ joinWith sep (y # ys)"

definition csvContent :: "row list \<Rightarrow> string" where
  "csvContent csvData = joinWith [LF] (map (\<lambda>r. joinWith '','' (map csvCell r)) csvData)"

section \<open>Roadmap items over HTTP (techStackController.js)\<close>

text \<open>
  A stored roadmap item carries the \<^verbatim>\<open>_id\<close> the store gave it, and
  \<^verbatim>\<open>findById\<close> looks a document up by its own \<^verbatim>\<open>_id\<close>. The collection is a map
  from document id to document; its reads and writes succeed.
\<close>

record stored_item = roadmap_item +
  item_id :: string

type_synonym techStackDoc = "stored_item techStack"

type_synonym collection = "string \<rightharpoonup> techStackDoc"

datatype response =
  Success200 techStackDoc
  | NotFound404 string

definition deleteRoadmapItem ::
  "collection \<Rightarrow> string \<Rightarrow> string \<Rightarrow> collection \<times> response" where
  "deleteRoadmapItem db id' itemId =
     (case db id' of
        None \<Rightarrow> (db, NotFound404 ''Tech stack not found'')
      | Some techStack \<Rightarrow>
          (let techStack' =
             techStack\<lparr>roadmapItems := filter (\<lambda>item. item_id item \<noteq> itemId) (roadmapItems techStack)\<rparr>
           in (db(id' \<mapsto> techStack'), Success200 techStack')))"

section \<open>What a row contributes\<close>

text \<open>
  The parts of \<open>importRow\<close> by name, to state what a run of the import
  aggregator computes: the topic a row carries itself, the record created for a
  topic seen for the first time, and the three updates of the record of the
  current topic (lemma \<open>importRow_step\<close> ties them to \<open>importRow\<close>).
\<close>

definition importKey :: "int \<Rightarrow> row \<Rightarrow> string option" where
  "importKey ti r =
     (if hasText (cellAt r ti) then Some (trim (cellText (cellAt r ti))) else None)"

definition freshItem :: "int \<Rightarrow> row \<Rightarrow> string \<Rightarrow> roadmap_item" where
  "freshItem sti r cur =
     \<lparr>topic = cur, subTopics = [], projects = [],
      completionStatus =
        (if truthy (cellAt r sti) then normalizeStatus (cellAt r sti) else ''Yet to Start'')\<rparr>"

definition applyRow :: "int \<Rightarrow> int \<Rightarrow> int \<Rightarrow> row \<Rightarrow> roadmap_item \<Rightarrow> roadmap_item" where
  "applyRow si pi sti r topicObj =
     (let o1 = (if si \<noteq> - 1 \<and> hasText (cellAt r si)
                then importSubTopics (cellText (cellAt r si)) topicObj
                else topicObj);
          o2 = (if pi \<noteq> - 1 \<and> hasText (cellAt r pi)
                then o1\<lparr>projects := pushIfAbsent (projects o1) (trim (cellText (cellAt r pi)))\<rparr>
                else o1)
      in (if sti \<noteq> - 1 \<and> hasText (cellAt r sti)
          then o2\<lparr>completionStatus :=
                 updateStatus (normalizeStatus (cellAt r sti)) (completionStatus o2)\<rparr>
          else o2))"

text \<open>The parts of \<open>csvRow\<close> by name: the key of a row and its three values.\<close>

definition csvKey :: "string \<Rightarrow> csv_row \<Rightarrow> string option" where
  "csvKey hTopic r = (if truthy (map_of r hTopic) then map_of r hTopic else None)"

definition csvSubTopics :: "string option \<Rightarrow> csv_row \<Rightarrow> string list" where
  "csvSubTopics hSubtopic r =
     (if truthy (field r hSubtopic) then splitTokens (cellText (field r hSubtopic)) else [])"

definition csvProjects :: "string option \<Rightarrow> csv_row \<Rightarrow> string list" where
  "csvProjects hProject r =
     (if truthy (field r hProject) then
        (if str_includes (cellText (field r hProject)) [LF]
         then splitTokens (cellText (field r hProject))
         else [trim (cellText (field r hProject))])
      else [])"

definition csvStatus :: "string option \<Rightarrow> csv_row \<Rightarrow> string" where
  "csvStatus hStatus r =
     (if truthy (field r hStatus) then normalizeStatus (field r hStatus) else ''Yet to Start'')"

definition csvNew ::
  "string option \<Rightarrow> string option \<Rightarrow> string option \<Rightarrow> string \<Rightarrow> csv_row \<Rightarrow> roadmap_item" where
  "csvNew hSubtopic hProject hStatus k r =
     \<lparr>topic = k, subTopics = csvSubTopics hSubtopic r, projects = csvProjects hProject r,
      completionStatus = csvStatus hStatus r\<rparr>"

definition csvMerge ::
  "string option \<Rightarrow> string option \<Rightarrow> string option \<Rightarrow> csv_row \<Rightarrow> roadmap_item \<Rightarrow> roadmap_item"
  where
  "csvMerge hSubtopic hProject hStatus r existingItem =
     existingItem
       \<lparr>subTopics := foldl pushIfAbsent (subTopics existingItem) (csvSubTopics hSubtopic r),
        projects := foldl pushIfAbsent (projects existingItem) (csvProjects hProject r),
        completionStatus := updateStatus (csvStatus hStatus r) (completionStatus existingItem)\<rparr>"

text \<open>
  Two facts a run keeps: the current topic of the import aggregator has a record,
  and every record is stored under its own topic.
\<close>

definition currentKnown :: "agg_state \<Rightarrow> bool" where
  "currentKnown st =
     (case currentTopic st of None \<Rightarrow> True | Some c \<Rightarrow> map_of (topicMap st) c \<noteq> None)"

definition topicsAreKeys :: "(string \<times> roadmap_item) list \<Rightarrow> bool" where
  "topicsAreKeys m = list_all (\<lambda>kv. topic (snd kv) = fst kv) m"

text \<open>What a row of the import path adds to the record of its topic.\<close>

definition subToks :: "int \<Rightarrow> row \<Rightarrow> string list" where
  "subToks si r =
     (if si \<noteq> - 1 \<and> hasText (cellAt r si) then splitTokens (cellText (cellAt r si)) else [])"

definition projToks :: "int \<Rightarrow> row \<Rightarrow> string list" where
  "projToks pi r =
     (if pi \<noteq> - 1 \<and> hasText (cellAt r pi) then [trim (cellText (cellAt r pi))] else [])"

definition rowStatus :: "int \<Rightarrow> row \<Rightarrow> string" where
  "rowStatus sti r = (if sti \<noteq> - 1 then normalizeStatus (cellAt r sti) else ''Yet to Start'')"

text \<open>The priority order of the three states.\<close>

definition statusRank :: "string \<Rightarrow> nat" where
  "statusRank s = (if s = ''Completed'' then 2 else if s = ''In Progress'' then 1 else 0)"

text \<open>
  Merging, as the specification words it: the status of higher priority, and the
  record with the subtopics and projects of a row added by name and its status
  raised to the row's. For the import path the row gives \<open>subToks\<close>,
  \<open>projToks\<close> and \<open>rowStatus\<close>, for the upload \<open>csvSubTopics\<close>, \<open>csvProjects\<close>
  and \<open>csvStatus\<close>.
\<close>

definition higherStatus :: "string \<Rightarrow> string \<Rightarrow> string" where
  "higherStatus cur s = (if statusRank cur < statusRank s then s else cur)"

definition merged :: "string list \<Rightarrow> string list \<Rightarrow> string \<Rightarrow> roadmap_item \<Rightarrow> roadmap_item" where
  "merged subs projs status item =
     item\<lparr>subTopics := foldl pushIfAbsent (subTopics item) subs,
          projects := foldl pushIfAbsent (projects item) projs,
          completionStatus := higherStatus (completionStatus item) status\<rparr>"


section \<open>The specification's header rule, and example inputs\<close>

text \<open>
  The topic column as the specification words it for the import path: the first
  header that contains one of the synonyms and does not contain "sub".
\<close>

definition topicIndex_spec :: "string list \<Rightarrow> int" where
  "topicIndex_spec hs =
     findIndex (\<lambda>h. containsAny (toLowerCase h) [''topic'', ''topics'', ''technology'']
                   \<and> \<not> str_includes (toLowerCase h) ''sub'') hs"

text \<open>What the import path asks of a topic header.\<close>

definition topicQualifies :: "string \<Rightarrow> bool" where
  "topicQualifies h =
     (str_includes (toLowerCase h) ''topic'' \<and> \<not> str_includes (toLowerCase h) ''sub'')"

text \<open>The sheet "React" of the specification's scenario: a header row and one data row.\<close>

definition reactSheet :: sheet where
  "reactSheet =
     \<lparr>sheetName = ''React'', rangeEndRow = 1,
      jsonData =
        [[''Topic'', ''Sub-Topics'', ''Project/App'', ''Status''],
         [''Hooks'', ''useState'' @ [LF] @ ''useEffect'', ''Counter App'', ''In Progress'']]\<rparr>"

definition reactItem :: roadmap_item where
  "reactItem =
     \<lparr>topic = ''Hooks'', subTopics = [''useState'', ''useEffect''],
      projects = [''Counter App''], completionStatus = ''In Progress''\<rparr>"

definition reactStack :: techStackData where
  "reactStack =
     \<lparr>name = ''React'', description = ''Imported from stacks.xlsx, sheet: React'',
      headers = \<lparr>topicLabel = ''Topic'', subTopicsLabel = ''Sub-Topics'',
                 projectsLabel = ''Project/App'', statusLabel = ''Status''\<rparr>,
      roadmapItems = [reactItem]\<rparr>"

definition cloudSheet :: sheet where
  "cloudSheet =
     \<lparr>sheetName = ''Cloud'', rangeEndRow = 2,
      jsonData = [[''Technology'', ''Status''], [''AWS'', ''Done''], [''GCP'', []]]\<rparr>"




definition storedDoc :: techStackDoc where
  "storedDoc =
     \<lparr>name = ''React'', description = [],
      headers = \<lparr>topicLabel = ''Topic'', subTopicsLabel = ''Sub-Topics'',
                 projectsLabel = ''Projects'', statusLabel = ''Status''\<rparr>,
      roadmapItems =
        [\<lparr>topic = ''Hooks'', subTopics = [], projects = [],
          completionStatus = ''Yet to Start'', item_id = ''a1''\<rparr>,
         \<lparr>topic = ''Router'', subTopics = [], projects = [],
          completionStatus = ''Yet to Start'', item_id = ''a2''\<rparr>]\<rparr>"

text \<open>
  A sheet with a row that leaves its topic cell empty (it belongs to "Hooks", the
  topic above it) and a row that repeats the topic "Hooks".
\<close>

definition hooksSheet :: sheet where
  "hooksSheet =
     \<lparr>sheetName = ''Frontend'', rangeEndRow = 4,
      jsonData =
        [[''Topic'', ''Sub-Topics'', ''Projects'', ''Status''],
         [''Hooks'', ''useState'', ''Counter App'', ''In Progress''],
         [[], ''useEffect'', [], []],
         [''Router'', ''Routes'', [], ''Done''],
         [''Hooks'', ''useState'' @ [LF] @ ''useRef'', ''Counter App'', []]]\<rparr>"

definition frontendHeaders :: header_labels where
  "frontendHeaders =
     \<lparr>topicLabel = ''Topic'', subTopicsLabel = ''Sub-Topics'',
      projectsLabel = ''Projects'', statusLabel = ''Status''\<rparr>"

definition hooksItem :: roadmap_item where
  "hooksItem =
     \<lparr>topic = ''Hooks'', subTopics = [''useState'', ''useEffect'', ''useRef''],
      projects = [''Counter App''], completionStatus = ''In Progress''\<rparr>"

definition routerItem :: roadmap_item where
  "routerItem =
     \<lparr>topic = ''Router'', subTopics = [''Routes''], projects = [],
      completionStatus = ''Completed''\<rparr>"

definition hooksStack :: techStackData where
  "hooksStack =
     \<lparr>name = ''Frontend'', description = ''Imported from stacks.xlsx, sheet: Frontend'',
      headers = frontendHeaders,
      roadmapItems = [hooksItem, routerItem]\<rparr>"

text \<open>The CSV file the converter writes for that sheet, as the upload parses it.\<close>

definition hooksCsv :: "csv_row list" where
  "hooksCsv =
     [[(''Topic'', ''Hooks''), (''Sub-Topics'', ''useState''),
       (''Projects'', ''Counter App''), (''Status'', ''In Progress'')],
      [(''Topic'', ''Router''), (''Sub-Topics'', ''Routes''),
       (''Projects'', []), (''Status'', ''Completed'')],
      [(''Topic'', ''Hooks''), (''Sub-Topics'', ''useState'' @ [LF] @ ''useRef''),
       (''Projects'', ''Counter App''), (''Status'', ''Yet to Start'')]]"

definition hooksCsvItem :: roadmap_item where
  "hooksCsvItem =
     \<lparr>topic = ''Hooks'', subTopics = [''useState'', ''useRef''],
      projects = [''Counter App''], completionStatus = ''In Progress''\<rparr>"

definition hooksCsvStack :: techStackData where
  "hooksCsvStack =
     \<lparr>name = ''Frontend'', description = [],
      headers = frontendHeaders,
      roadmapItems = [hooksCsvItem, routerItem]\<rparr>"

text \<open>A projects cell of two lines, and one that repeats its only line.\<close>

definition twoProjects :: string where
  "twoProjects = ''Todo App'' @ [LF] @ ''Blog''"

definition sameProjectTwice :: string where
  "sameProjectTwice = ''Todo App'' @ [LF] @ ''Todo App''"

text \<open>What the converter writes for that sheet: the row without a topic is gone.\<close>

definition hooksCsvData :: "row list" where
  "hooksCsvData =
     [[''Topic'', ''Sub-Topics'', ''Projects'', ''Status''],
      [''Hooks'', ''useState'', ''Counter App'', ''In Progress''],
      [''Router'', ''Routes'', [], ''Completed''],
      [''Hooks'', ''useState'' @ [LF] @ ''useRef'', ''Counter App'', ''Yet to Start'']]"

text \<open>
  The text of that file. Its separator is the comma, its only quoted cell is the
  one with the line feed, and its three data lines are the objects of
  \<open>hooksCsv\<close>, keyed by the header line.
\<close>

definition hooksCsvText :: string where
  "hooksCsvText =
     ''Topic,Sub-Topics,Projects,Status'' @ [LF]
     @ ''Hooks,useState,Counter App,In Progress'' @ [LF]
     @ ''Router,Routes,,Completed'' @ [LF]
     @ ''Hooks,'' @ [CHR 0x22] @ ''useState'' @ [LF] @ ''useRef'' @ [CHR 0x22]
     @ '',Counter App,Yet to Start''"

text \<open>Rows of one topic whose status goes up and is then reported lower.\<close>

definition doneRows :: "row list" where
  "doneRows = [[''Hooks'', ''In Progress''], [''Hooks'', ''Done'']]"

definition laterRows :: "row list" where
  "laterRows = [[''Hooks'', ''In Progress''], [[], ''Yet to Start'']]"

definition doneCsv :: "csv_row list" where
  "doneCsv =
     [[(''Topic'', ''Hooks''), (''Status'', ''In Progress'')],
      [(''Topic'', ''Hooks''), (''Status'', ''Done'')]]"

definition laterCsv :: "csv_row list" where
  "laterCsv =
     [[(''Topic'', ''Hooks''), (''Status'', ''In Progress'')],
      [(''Topic'', ''Hooks''), (''Status'', ''Yet to Start'')]]"

text \<open>Two rows whose topic cells differ in a leading blank only.\<close>

definition spacedRows :: "row list" where
  "spacedRows = [[''Hooks''], ['' Hooks'']]"

definition spacedCsv :: "csv_row list" where
  "spacedCsv = [[(''Topic'', ''Hooks'')], [(''Topic'', '' Hooks'')]]"

definition bareItem :: "string \<Rightarrow> roadmap_item" where
  "bareItem t = \<lparr>topic = t, subTopics = [], projects = [], completionStatus = ''Yet to Start''\<rparr>"

text \<open>
  The records of "Hooks" before the last row of the sheet "Frontend" and before
  the last line of its CSV file.
\<close>

definition hooksBefore :: roadmap_item where
  "hooksBefore =
     \<lparr>topic = ''Hooks'', subTopics = [''useState'', ''useEffect''],
      projects = [''Counter App''], completionStatus = ''In Progress''\<rparr>"

definition hooksCsvBefore :: roadmap_item where
  "hooksCsvBefore =
     \<lparr>topic = ''Hooks'', subTopics = [''useState''],
      projects = [''Counter App''], completionStatus = ''In Progress''\<rparr>"




section \<open>The normalizer against its specification\<close>

lemma toLowerCase_Nil: "toLowerCase [] = []"
  by (simp add: toLowerCase_def)

text \<open>
  C5: on every input, absent, empty or any text, the status normalizer of the
  scripts returns what the reference function of the specification returns, and
  "Partially complete" is normalized to "Completed".
\<close>

theorem normalizeStatus_refines_spec:
  "normalizeStatus inp = normalize_spec inp
   \<and> normalizeStatus (Some ''Partially complete'') = ''Completed''
   \<and> normalizeStatus (Some []) = ''Yet to Start''
   \<and> normalizeStatus None = ''Yet to Start''"
proof -
  have general: "normalizeStatus inp = normalize_spec inp"
  proof (cases inp)
    case None
    then show ?thesis
      by (simp add: normalizeStatus_def normalize_spec_def containsAny_def toLowerCase_Nil)
  next
    case (Some s)
    show ?thesis
    proof (cases "s = []")
      case True
      with Some show ?thesis
        by (simp add: normalizeStatus_def normalize_spec_def containsAny_def toLowerCase_Nil)
    next
      case False
      with Some show ?thesis
        by (simp add: normalizeStatus_def normalize_spec_def containsAny_def Let_def)
    qed
  qed
  have pinned: "normalizeStatus (Some ''Partially complete'') = ''Completed''"
    by (simp add: normalizeStatus_def toLowerCase_def toLowerChar_def)
  have "normalizeStatus (Some []) = ''Yet to Start''" and "normalizeStatus None = ''Yet to Start''"
    by (simp_all add: normalizeStatus_def)
  with general pinned show ?thesis by simp
qed

section \<open>Header resolution of the import path\<close>

lemma findIndex_ge: "- 1 \<le> findIndex p xs"
  by (induction xs) (auto simp: Let_def)

lemma findIndex_none: "(findIndex p xs = - 1) = (\<forall>x\<in>set xs. \<not> p x)"
proof (induction xs)
  case Nil
  show ?case by simp
next
  case (Cons x xs)
  have "- 1 \<le> findIndex p xs" by (rule findIndex_ge)
  with Cons show ?case by (auto simp: Let_def)
qed

lemma findIndex_found:
  "findIndex p xs \<noteq> - 1 \<Longrightarrow>
     0 \<le> findIndex p xs \<and> nat (findIndex p xs) < length xs \<and> p (xs ! nat (findIndex p xs))
     \<and> (\<forall>j < nat (findIndex p xs). \<not> p (xs ! j))"
proof (induction xs)
  case Nil
  then show ?case by simp
next
  case (Cons x xs)
  show ?case
  proof (cases "p x")
    case True
    then show ?thesis by simp
  next
    case False
    with Cons.prems have ne: "findIndex p xs \<noteq> - 1" by (auto simp: Let_def split: if_splits)
    from Cons.IH [OF ne] have ih: "0 \<le> findIndex p xs" "nat (findIndex p xs) < length xs"
      "p (xs ! nat (findIndex p xs))" "\<forall>j < nat (findIndex p xs). \<not> p (xs ! j)" by auto
    have eq: "findIndex p (x # xs) = findIndex p xs + 1" using False ne by (simp add: Let_def)
    have n: "nat (findIndex p xs + 1) = Suc (nat (findIndex p xs))" using ih(1) by simp
    have a: "(x # xs) ! Suc (nat (findIndex p xs)) = xs ! nat (findIndex p xs)" by simp
    have b: "\<forall>j < Suc (nat (findIndex p xs)). \<not> p ((x # xs) ! j)"
    proof (intro allI impI)
      fix j assume "j < Suc (nat (findIndex p xs))"
      then show "\<not> p ((x # xs) ! j)" using ih(4) False by (cases j) auto
    qed
    show ?thesis unfolding eq n a using ih(1,2,3) b by simp
  qed
qed

lemma importTopicIndex_findIndex: "importTopicIndex hs = findIndex topicQualifies hs"
proof -
  have "topicQualifies =
          (\<lambda>h. str_includes (toLowerCase h) ''topic'' \<and> \<not> str_includes (toLowerCase h) ''sub'')"
    by (rule ext) (simp add: topicQualifies_def)
  then show ?thesis by (simp add: importTopicIndex_def)
qed

text \<open>
  What the import path does resolve: the topic column is the first header,
  scanning left to right, whose lower-cased text contains "topic" and does not
  contain "sub". A header containing "sub" is never selected, and a sheet that
  is not skipped by name, has at least two rows and has no such header is
  skipped for its missing topic column.
\<close>

theorem importTopicIndex_first_qualifying_header:
  "((importTopicIndex hs = - 1) = (\<forall>h\<in>set hs. \<not> topicQualifies h))
   \<and> (importTopicIndex hs \<noteq> - 1 \<longrightarrow>
        0 \<le> importTopicIndex hs \<and> nat (importTopicIndex hs) < length hs
        \<and> str_includes (toLowerCase (hs ! nat (importTopicIndex hs))) ''topic''
        \<and> \<not> str_includes (toLowerCase (hs ! nat (importTopicIndex hs))) ''sub''
        \<and> (\<forall>j < nat (importTopicIndex hs). \<not> topicQualifies (hs ! j)))
   \<and> (toLowerCase (sheetName sh) \<noteq> ''readme'' \<and> toLowerCase (sheetName sh) \<noteq> ''instructions''
        \<and> 2 \<le> length (jsonData sh)
        \<and> (\<forall>h\<in>set (cleanHeaders (hd (jsonData sh))). \<not> topicQualifies h)
        \<longrightarrow> importSheet fileBase sh = Inl MissingTopicColumn)"
proof (intro conjI impI)
  show "(importTopicIndex hs = - 1) = (\<forall>h\<in>set hs. \<not> topicQualifies h)"
    unfolding importTopicIndex_findIndex by (rule findIndex_none)
next
  assume found: "importTopicIndex hs \<noteq> - 1"
  then have "findIndex topicQualifies hs \<noteq> - 1" by (simp add: importTopicIndex_findIndex)
  from findIndex_found [OF this]
  have f: "0 \<le> importTopicIndex hs" "nat (importTopicIndex hs) < length hs"
    "topicQualifies (hs ! nat (importTopicIndex hs))"
    "\<forall>j < nat (importTopicIndex hs). \<not> topicQualifies (hs ! j)"
    by (simp_all add: importTopicIndex_findIndex)
  show "0 \<le> importTopicIndex hs" by (rule f(1))
  show "nat (importTopicIndex hs) < length hs" by (rule f(2))
  show "str_includes (toLowerCase (hs ! nat (importTopicIndex hs))) ''topic''"
    using f(3) by (simp add: topicQualifies_def)
  show "\<not> str_includes (toLowerCase (hs ! nat (importTopicIndex hs))) ''sub''"
    using f(3) by (simp add: topicQualifies_def)
  show "\<forall>j < nat (importTopicIndex hs). \<not> topicQualifies (hs ! j)" by (rule f(4))
next
  assume a: "toLowerCase (sheetName sh) \<noteq> ''readme'' \<and> toLowerCase (sheetName sh) \<noteq> ''instructions''
        \<and> 2 \<le> length (jsonData sh)
        \<and> (\<forall>h\<in>set (cleanHeaders (hd (jsonData sh))). \<not> topicQualifies h)"
  then have "findIndex topicQualifies (cleanHeaders (hd (jsonData sh))) = - 1"
    by (simp add: findIndex_none)
  then have "importTopicIndex (cleanHeaders (hd (jsonData sh))) = - 1"
    by (simp add: importTopicIndex_findIndex)
  with a show "importSheet fileBase sh = Inl MissingTopicColumn"
    by (simp add: importSheet_def)
qed

theorem importTopicIndex_first_qualifying_header_witness:
  "importTopicIndex [''Sub-Topics'', ''Notes'', ''Main Topics'', ''Topic''] = 2
   \<and> \<not> str_includes (toLowerCase ''Main Topics'') ''sub''
   \<and> \<not> topicQualifies ''Sub-Topics'' \<and> \<not> topicQualifies ''Notes''
   \<and> cleanHeaders (hd (jsonData cloudSheet)) = [''Technology'', ''Status'']
   \<and> importSheet ''stacks.xlsx'' cloudSheet = Inl MissingTopicColumn"
proof -
  let ?hs = "[''Sub-Topics'', ''Notes'', ''Main Topics'', ''Topic'']"
  note t = importTopicIndex_first_qualifying_header [of ?hs cloudSheet "''stacks.xlsx''"]
  have i: "importTopicIndex ?hs = 2"
    by code_simp
  from t i have s: "\<not> str_includes (toLowerCase (?hs ! 2)) ''sub''"
    and b: "\<forall>j < 2. \<not> topicQualifies (?hs ! j)"
    by simp_all
  from b [rule_format, of 0] b [rule_format, of 1]
  have b': "\<not> topicQualifies ''Sub-Topics''" "\<not> topicQualifies ''Notes''"
    by simp_all
  have n: "toLowerCase (sheetName cloudSheet) \<noteq> ''readme''
           \<and> toLowerCase (sheetName cloudSheet) \<noteq> ''instructions''
           \<and> 2 \<le> length (jsonData cloudSheet)"
    by code_simp
  have c: "cleanHeaders (hd (jsonData cloudSheet)) = [''Technology'', ''Status'']"
    by code_simp
  have q: "\<forall>h\<in>set (cleanHeaders (hd (jsonData cloudSheet))). \<not> topicQualifies h"
    by code_simp
  from t n q have k: "importSheet ''stacks.xlsx'' cloudSheet = Inl MissingTopicColumn"
    by blast
  from i s b' c k show ?thesis by simp
qed

text \<open>
  C6: the topic synonyms of the specification are "topic", "topics" and
  "technology", and the converter and the upload resolve a header "Technology"
  to the topic column. The import path tests "topic" only: on the sheet "Cloud",
  whose headers are "Technology" and "Status", the rule of the claim selects
  column 0 and so do the two other resolvers, but the import finds no topic
  column and skips the sheet.
\<close>

theorem import_skips_technology_header:
  "cleanHeaders (hd (jsonData cloudSheet)) = [''Technology'', ''Status'']
   \<and> topicIndex_spec [''Technology'', ''Status''] = 0
   \<and> convTopicsColIdx [''Technology'', ''Status''] = 0
   \<and> findHeader [''Technology'', ''Status''] topicAlternatives = Some ''Technology''
   \<and> importTopicIndex [''Technology'', ''Status''] = - 1
   \<and> importSheet ''stacks.xlsx'' cloudSheet = Inl MissingTopicColumn"
proof -
  have a: "cleanHeaders (hd (jsonData cloudSheet)) = [''Technology'', ''Status'']" by code_simp
  have b: "topicIndex_spec [''Technology'', ''Status''] = 0" by code_simp
  have c: "convTopicsColIdx [''Technology'', ''Status''] = 0" by code_simp
  have d: "findHeader [''Technology'', ''Status''] topicAlternatives = Some ''Technology''"
    by code_simp
  have e: "importTopicIndex [''Technology'', ''Status''] = - 1" by code_simp
  have f: "importSheet ''stacks.xlsx'' cloudSheet = Inl MissingTopicColumn" by code_simp
  from a b c d e f show ?thesis by simp
qed

section \<open>Sheets with too few rows\<close>

text \<open>
  C7: the import path skips a sheet for having no data exactly when it has fewer
  than two rows. The converter tests \<^verbatim>\<open>range.e.r < 2\<close> under the comment "At least
  2 rows (header + data)", but \<^verbatim>\<open>e.r\<close> is the index of the last row, counted from
  0: the sheet "React", a header row and one data row, has \<^verbatim>\<open>e.r = 1\<close> and is
  skipped for insufficient data, while the import path takes it.
\<close>

theorem convertSheet_skips_header_plus_one_row:
  "length (jsonData reactSheet) = 2 \<and> rangeEndRow reactSheet = 1
   \<and> convertSheet reactSheet = Inl InsufficientData
   \<and> importSheet ''stacks.xlsx'' reactSheet = Inr reactStack"
  by code_simp

section \<open>The aggregators, row by row\<close>

lemma importRow_step:
  assumes "currentKnown st"
  shows "importRow ti si pi sti st r =
     (case (case importKey ti r of Some k \<Rightarrow> Some k | None \<Rightarrow> currentTopic st) of
        None \<Rightarrow> st
      | Some cur \<Rightarrow>
          \<lparr>topicMap = AList.update cur
              (applyRow si pi sti r
                 (case map_of (topicMap st) cur of Some v \<Rightarrow> v | None \<Rightarrow> freshItem sti r cur))
              (topicMap st),
           currentTopic = Some cur\<rparr>)"
proof (cases "hasText (cellAt r ti)")
  case True
  let ?cur = "trim (cellText (cellAt r ti))"
  show ?thesis
  proof (cases "map_of (topicMap st) ?cur")
    case None
    with True show ?thesis
      by (simp add: importRow_def importKey_def applyRow_def freshItem_def Let_def
          update_conv')
  next
    case (Some v)
    with True show ?thesis
      by (simp add: importRow_def importKey_def applyRow_def Let_def)
  qed
next
  case False
  show ?thesis
  proof (cases "currentTopic st")
    case None
    with False show ?thesis by (simp add: importRow_def importKey_def)
  next
    case (Some c)
    with assms obtain v where "map_of (topicMap st) c = Some v"
      by (auto simp: currentKnown_def)
    with False Some show ?thesis
      by (simp add: importRow_def importKey_def applyRow_def Let_def)
  qed
qed

lemma currentKnown_importRow:
  "currentKnown st \<Longrightarrow> currentKnown (importRow ti si pi sti st r)"
  by (simp add: importRow_step) (auto simp: currentKnown_def update_conv' split: option.splits)

lemma keys_update_known:
  "map_of al k \<noteq> None \<Longrightarrow> map fst (AList.update k v al) = map fst al"
  by (auto simp: update_keys map_of_eq_None_iff)

lemma keys_update_push: "map fst (AList.update k v al) = pushIfAbsent (map fst al) k"
  by (simp add: update_keys pushIfAbsent_def)

lemma keys_importRow:
  assumes "currentKnown st"
  shows "map fst (topicMap (importRow ti si pi sti st r)) =
           (case importKey ti r of None \<Rightarrow> map fst (topicMap st)
            | Some k \<Rightarrow> pushIfAbsent (map fst (topicMap st)) k)"
proof (cases "importKey ti r")
  case None
  show ?thesis
  proof (cases "currentTopic st")
    case N: None
    with None assms show ?thesis by (simp add: importRow_step)
  next
    case (Some c)
    with assms have "map_of (topicMap st) c \<noteq> None" by (simp add: currentKnown_def)
    with None Some assms show ?thesis by (simp add: importRow_step keys_update_known)
  qed
next
  case (Some k)
  with assms show ?thesis by (simp add: importRow_step keys_update_push)
qed

lemma currentKnown_importRows:
  "currentKnown st \<Longrightarrow> currentKnown (importRows ti si pi sti st rows)"
  unfolding importRows_def
  by (induction rows arbitrary: st) (simp_all add: currentKnown_importRow)

lemma keys_importRows:
  "currentKnown st \<Longrightarrow>
     map fst (topicMap (importRows ti si pi sti st rows)) =
       foldl pushIfAbsent (map fst (topicMap st)) (List.map_filter (importKey ti) rows)"
  unfolding importRows_def
proof (induction rows arbitrary: st)
  case Nil
  show ?case by simp
next
  case (Cons r rows)
  from Cons.prems have k: "currentKnown (importRow ti si pi sti st r)"
    by (rule currentKnown_importRow)
  show ?case
    using Cons.IH [OF k] keys_importRow [OF Cons.prems, of ti si pi sti r]
    by (simp split: option.splits)
qed

lemma distinct_pushIfAbsent: "distinct xs \<Longrightarrow> distinct (pushIfAbsent xs x)"
  by (simp add: pushIfAbsent_def)

lemma distinct_foldl_pushIfAbsent: "distinct xs \<Longrightarrow> distinct (foldl pushIfAbsent xs ys)"
  by (induction ys arbitrary: xs) (simp_all add: distinct_pushIfAbsent)

lemma set_pushIfAbsent: "set (pushIfAbsent xs x) = insert x (set xs)"
  by (auto simp: pushIfAbsent_def)

lemma set_foldl_pushIfAbsent: "set (foldl pushIfAbsent xs ys) = set xs \<union> set ys"
  by (induction ys arbitrary: xs) (auto simp: set_pushIfAbsent)

lemma set_update_cases:
  "kv \<in> set (AList.update k v al) \<Longrightarrow> kv = (k, v) \<or> kv \<in> set al"
  by (induction al) (auto split: if_splits)

lemma topic_importSubTopics: "topic (importSubTopics t v) = topic v"
  by (simp add: importSubTopics_def)

lemma topic_applyRow: "topic (applyRow si pi sti r v) = topic v"
  by (simp add: applyRow_def Let_def topic_importSubTopics)

lemma topicsAreKeys_update:
  "topicsAreKeys m \<Longrightarrow> topic v = k \<Longrightarrow> topicsAreKeys (AList.update k v m)"
  unfolding topicsAreKeys_def list_all_iff
  by (auto dest!: set_update_cases)

lemma topicsAreKeys_lookup:
  assumes "topicsAreKeys m" and "map_of m k = Some v"
  shows "topic v = k"
proof -
  from assms(2) have "(k, v) \<in> set m" by (rule map_of_SomeD)
  with assms(1) show ?thesis by (force simp: topicsAreKeys_def list_all_iff)
qed

lemma topicsAreKeys_importRow:
  assumes "currentKnown st" and "topicsAreKeys (topicMap st)"
  shows "topicsAreKeys (topicMap (importRow ti si pi sti st r))"
proof (cases "case importKey ti r of Some k \<Rightarrow> Some k | None \<Rightarrow> currentTopic st")
  case None
  with assms show ?thesis by (simp add: importRow_step)
next
  case (Some cur)
  have "topic (applyRow si pi sti r
          (case map_of (topicMap st) cur of Some v \<Rightarrow> v | None \<Rightarrow> freshItem sti r cur)) = cur"
    using assms(2) by (auto simp: topic_applyRow freshItem_def split: option.splits
        dest: topicsAreKeys_lookup)
  with Some assms show ?thesis by (simp add: importRow_step topicsAreKeys_update)
qed

lemma topicsAreKeys_importRows:
  "currentKnown st \<Longrightarrow> topicsAreKeys (topicMap st) \<Longrightarrow>
     topicsAreKeys (topicMap (importRows ti si pi sti st rows))"
  unfolding importRows_def
  by (induction rows arbitrary: st)
     (simp_all add: currentKnown_importRow topicsAreKeys_importRow)

lemma topics_of_items: "topicsAreKeys m \<Longrightarrow> map topic (map snd m) = map fst m"
  unfolding topicsAreKeys_def by (induction m) auto

lemma importItems_topics:
  "map topic (importItems hs rows) =
     foldl pushIfAbsent [] (List.map_filter (importKey (importTopicIndex hs)) rows)"
proof -
  let ?init = "\<lparr>topicMap = [], currentTopic = None\<rparr>"
  have k: "currentKnown ?init" by (simp add: currentKnown_def)
  have t: "topicsAreKeys (topicMap ?init)" by (simp add: topicsAreKeys_def)
  from topics_of_items [OF topicsAreKeys_importRows [OF k t]] keys_importRows [OF k]
  show ?thesis by (simp add: importItems_def)
qed

lemma csvRow_step:
  "csvRow hT hS hP hSt m r =
     (case csvKey hT r of
        None \<Rightarrow> m
      | Some k \<Rightarrow>
          AList.update k
            (case map_of m k of None \<Rightarrow> csvNew hS hP hSt k r | Some e \<Rightarrow> csvMerge hS hP hSt r e) m)"
  by (auto simp: csvRow_def csvKey_def csvNew_def csvMerge_def csvSubTopics_def csvProjects_def
      csvStatus_def Let_def truthy_def cellText_def split: option.splits)

lemma keys_csvRow:
  "map fst (csvRow hT hS hP hSt m r) =
     (case csvKey hT r of None \<Rightarrow> map fst m | Some k \<Rightarrow> pushIfAbsent (map fst m) k)"
  by (simp add: csvRow_step keys_update_push split: option.splits)

lemma keys_csvRows:
  "map fst (foldl (csvRow hT hS hP hSt) m data) =
     foldl pushIfAbsent (map fst m) (List.map_filter (csvKey hT) data)"
  by (induction data arbitrary: m)
     (simp_all add: keys_csvRow split: option.splits)

lemma topicsAreKeys_csvRow:
  assumes "topicsAreKeys m"
  shows "topicsAreKeys (csvRow hT hS hP hSt m r)"
proof (cases "csvKey hT r")
  case None
  with assms show ?thesis by (simp add: csvRow_step)
next
  case (Some k)
  have "topic (case map_of m k of None \<Rightarrow> csvNew hS hP hSt k r
                | Some e \<Rightarrow> csvMerge hS hP hSt r e) = k"
    using assms by (auto simp: csvNew_def csvMerge_def split: option.splits
        dest: topicsAreKeys_lookup)
  with Some assms show ?thesis by (simp add: csvRow_step topicsAreKeys_update)
qed

lemma topicsAreKeys_csvRows:
  "topicsAreKeys m \<Longrightarrow> topicsAreKeys (foldl (csvRow hT hS hP hSt) m data)"
  by (induction data arbitrary: m) (simp_all add: topicsAreKeys_csvRow)

lemma csvItems_topics:
  assumes "csvItems data = Inr items"
  shows "map topic items =
           foldl pushIfAbsent [] (List.map_filter (csvKey (topicLabel (csvHeaders data))) data)"
proof -
  let ?hs = "csvHeaderNames data"
  from assms obtain hT where h: "findHeader ?hs topicAlternatives = Some hT"
    and i: "items = map snd (foldl (csvRow hT (findHeader ?hs subtopicAlternatives)
                 (findHeader ?hs projectAlternatives) (findHeader ?hs statusAlternatives)) [] data)"
    by (auto simp: csvItems_def Let_def split: option.splits)
  have l: "topicLabel (csvHeaders data) = hT" using h by (simp add: csvHeaders_def Let_def)
  have t: "topicsAreKeys ([] :: (string \<times> roadmap_item) list)" by (simp add: topicsAreKeys_def)
  let ?m = "foldl (csvRow hT (findHeader ?hs subtopicAlternatives)
                 (findHeader ?hs projectAlternatives) (findHeader ?hs statusAlternatives)) [] data"
  have tk: "topicsAreKeys ?m" using t by (rule topicsAreKeys_csvRows)
  have "map topic (map snd ?m) = map fst ?m" using tk by (rule topics_of_items)
  also have "\<dots> = foldl pushIfAbsent [] (List.map_filter (csvKey hT) data)"
    by (simp add: keys_csvRows)
  finally show ?thesis unfolding i l .
qed

lemma currentKnown_init: "currentKnown \<lparr>topicMap = [], currentTopic = None\<rparr>"
  by (simp add: currentKnown_def)

section \<open>Blank cells and single lines\<close>

lemma str_includes_single: "str_includes s [c] = (c \<in> set s)"
  by (induction s) auto

lemma str_includes_hd: "str_includes s t \<Longrightarrow> t \<noteq> [] \<Longrightarrow> hd t \<in> set s"
proof (induction s)
  case Nil
  then show ?case by simp
next
  case (Cons a s)
  from Cons.prems(1) have "prefix t (a # s) \<or> str_includes s t" by simp
  then show ?case
  proof
    assume "prefix t (a # s)"
    with Cons.prems(2) show ?thesis by (cases t) auto
  next
    assume "str_includes s t"
    from Cons.IH [OF this Cons.prems(2)] show ?thesis by simp
  qed
qed

lemma trim_Nil_iff: "(trim s = []) = (\<forall>c\<in>set s. isSpace c)"
proof
  assume "trim s = []"
  then have "dropWhile isSpace (rev (dropWhile isSpace s)) = []" by (simp add: trim_def)
  then have all: "\<forall>c\<in>set (dropWhile isSpace s). isSpace c" by (simp add: dropWhile_eq_Nil_conv)
  have "dropWhile isSpace s = []"
  proof (cases "dropWhile isSpace s")
    case Nil
    then show ?thesis .
  next
    case (Cons a as)
    then have "\<not> isSpace a" using hd_dropWhile [of isSpace s] by auto
    moreover from Cons all have "isSpace a" by simp
    ultimately show ?thesis by simp
  qed
  then show "\<forall>c\<in>set s. isSpace c" by (simp add: dropWhile_eq_Nil_conv)
next
  assume "\<forall>c\<in>set s. isSpace c"
  then have d: "dropWhile isSpace s = []" by simp
  show "trim s = []" unfolding trim_def d by simp
qed

lemma splitLines_from_pieces:
  "x \<in> set (splitLines_from cur s) \<Longrightarrow> set x \<subseteq> set cur \<union> set s"
proof (induction cur s rule: splitLines_from.induct)
  case (1 cur)
  then show ?case by auto
next
  case (2 cur c cs)
  show ?case
  proof (cases "c = LF")
    case True
    with "2.prems" have "x = rev cur \<or> x \<in> set (splitLines_from [] cs)" by simp
    then show ?thesis using "2.IH"(1) [OF True] by auto
  next
    case notLF: False
    show ?thesis
    proof (cases "c = CR \<and> cs \<noteq> [] \<and> hd cs = LF")
      case True
      with notLF "2.prems" have "x = rev cur \<or> x \<in> set (splitLines_from [] (tl cs))" by simp
      moreover have "set (tl cs) \<subseteq> set cs" using True by (cases cs) auto
      ultimately show ?thesis using "2.IH"(2) [OF notLF True] by auto
    next
      case False
      with notLF "2.prems" have "x \<in> set (splitLines_from (c # cur) cs)" by auto
      from "2.IH"(3) [OF notLF False this] show ?thesis by auto
    qed
  qed
qed

lemma splitTokens_blank:
  assumes "\<forall>c\<in>set s. isSpace c"
  shows "splitTokens s = []"
proof -
  have "\<forall>x\<in>set (splitLines s). trim x = []"
  proof
    fix x assume "x \<in> set (splitLines s)"
    then have "set x \<subseteq> set s" using splitLines_from_pieces [of x "[]" s]
      by (simp add: splitLines_def)
    with assms show "trim x = []" by (auto simp: trim_Nil_iff)
  qed
  then show ?thesis by (simp add: splitTokens_def filter_empty_conv)
qed

lemma splitLines_from_no_LF: "LF \<notin> set s \<Longrightarrow> splitLines_from cur s = [rev cur @ s]"
proof (induction cur s rule: splitLines_from.induct)
  case (1 cur)
  show ?case by simp
next
  case (2 cur c cs)
  from "2.prems" have c: "c \<noteq> LF" and cs: "LF \<notin> set cs" by auto
  have h: "\<not> (c = CR \<and> cs \<noteq> [] \<and> hd cs = LF)" using cs by (cases cs) auto
  from "2.IH"(3) [OF c h cs] c h show ?case by simp
qed

lemma splitTokens_one_line:
  "LF \<notin> set s \<Longrightarrow> trim s \<noteq> [] \<Longrightarrow> splitTokens s = [trim s]"
  by (simp add: splitTokens_def splitLines_def splitLines_from_no_LF)

lemma toLowerChar_space: "isSpace c \<Longrightarrow> toLowerChar c = c"
proof -
  have "\<forall>c\<in>set [CHR '' '', CHR 0x09, LF, CHR 0x0B, CHR 0x0C, CR, CHR 0xA0]. toLowerChar c = c"
    by code_simp
  then show "isSpace c \<Longrightarrow> toLowerChar c = c" unfolding isSpace_def by blast
qed

lemma blank_includes_nothing:
  assumes "\<forall>c\<in>set s. isSpace c" and "t \<noteq> []" and "\<not> isSpace (hd t)"
  shows "\<not> str_includes (toLowerCase s) t"
proof
  assume "str_includes (toLowerCase s) t"
  from str_includes_hd [OF this assms(2)] obtain c where "c \<in> set s" and "hd t = toLowerChar c"
    by (auto simp: toLowerCase_def)
  with assms(1) have "isSpace (hd t)" by (simp add: toLowerChar_space)
  with assms(3) show False by simp
qed

lemma normalizeStatus_blank:
  assumes "\<not> hasText c"
  shows "normalizeStatus c = ''Yet to Start''"
proof (cases c)
  case None
  then show ?thesis by (simp add: normalizeStatus_def)
next
  case (Some s)
  show ?thesis
  proof (cases "s = []")
    case True
    with Some show ?thesis by (simp add: normalizeStatus_def)
  next
    case False
    with Some assms have "trim s = []" by (simp add: hasText_def truthy_def cellText_def)
    then have b: "\<forall>c\<in>set s. isSpace c" by (simp add: trim_Nil_iff)
    have ns: "\<not> isSpace (hd ''complete'')" "\<not> isSpace (hd ''done'')" "\<not> isSpace (hd ''finish'')"
      "\<not> isSpace (hd ''progress'')" "\<not> isSpace (hd ''ongoing'')" "\<not> isSpace (hd ''partial'')"
      by code_simp+
    have "\<not> str_includes (toLowerCase s) ''complete''"
      by (rule blank_includes_nothing [OF b _ ns(1)]) simp
    moreover have "\<not> str_includes (toLowerCase s) ''done''"
      by (rule blank_includes_nothing [OF b _ ns(2)]) simp
    moreover have "\<not> str_includes (toLowerCase s) ''finish''"
      by (rule blank_includes_nothing [OF b _ ns(3)]) simp
    moreover have "\<not> str_includes (toLowerCase s) ''progress''"
      by (rule blank_includes_nothing [OF b _ ns(4)]) simp
    moreover have "\<not> str_includes (toLowerCase s) ''ongoing''"
      by (rule blank_includes_nothing [OF b _ ns(5)]) simp
    moreover have "\<not> str_includes (toLowerCase s) ''partial''"
      by (rule blank_includes_nothing [OF b _ ns(6)]) simp
    ultimately show ?thesis using Some False by (simp add: normalizeStatus_def)
  qed
qed

section \<open>What a row adds to a record\<close>

lemma importSubTopics_tokens:
  assumes "trim t \<noteq> []"
  shows "subTopics (importSubTopics t v) = foldl pushIfAbsent (subTopics v) (splitTokens t)"
proof (cases "str_includes t [LF] \<or> str_includes t [CR]")
  case True
  then show ?thesis by (simp add: importSubTopics_def)
next
  case False
  then have "LF \<notin> set t" by (simp add: str_includes_single)
  from this assms have "splitTokens t = [trim t]" by (rule splitTokens_one_line)
  with False show ?thesis by (simp add: importSubTopics_def)
qed

lemma subTopics_applyRow:
  "subTopics (applyRow si pi sti r v) = foldl pushIfAbsent (subTopics v) (subToks si r)"
proof (cases "si \<noteq> - 1 \<and> hasText (cellAt r si)")
  case True
  then have "trim (cellText (cellAt r si)) \<noteq> []" by (simp add: hasText_def)
  from importSubTopics_tokens [OF this] True show ?thesis
    by (simp add: applyRow_def Let_def subToks_def)
next
  case False
  then show ?thesis by (auto simp: applyRow_def Let_def subToks_def)
qed

lemma projects_importSubTopics: "projects (importSubTopics t v) = projects v"
  by (simp add: importSubTopics_def)

lemma projects_applyRow:
  "projects (applyRow si pi sti r v) =
     (if pi \<noteq> - 1 \<and> hasText (cellAt r pi)
      then pushIfAbsent (projects v) (trim (cellText (cellAt r pi)))
      else projects v)"
  by (simp add: applyRow_def Let_def projects_importSubTopics)

lemma projects_applyRow_toks:
  "projects (applyRow si pi sti r v) = foldl pushIfAbsent (projects v) (projToks pi r)"
  by (simp add: projects_applyRow projToks_def)

lemma statusRank_updateStatus: "statusRank cur \<le> statusRank (updateStatus s cur)"
  by (simp add: updateStatus_def statusRank_def)

lemma completionStatus_importSubTopics:
  "completionStatus (importSubTopics t v) = completionStatus v"
  by (simp add: importSubTopics_def)

lemma completionStatus_applyRow:
  "completionStatus (applyRow si pi sti r v) =
     (if sti \<noteq> - 1 \<and> hasText (cellAt r sti)
      then updateStatus (normalizeStatus (cellAt r sti)) (completionStatus v)
      else completionStatus v)"
  by (simp add: applyRow_def Let_def completionStatus_importSubTopics)

lemma updateStatus_idle: "updateStatus ''Yet to Start'' cur = cur"
  by (simp add: updateStatus_def)

lemma status_applyRow:
  "completionStatus (applyRow si pi sti r v) =
     updateStatus (rowStatus sti r) (completionStatus v)"
proof (cases "sti \<noteq> - 1 \<and> hasText (cellAt r sti)")
  case True
  then show ?thesis by (simp add: completionStatus_applyRow rowStatus_def)
next
  case False
  then have "rowStatus sti r = ''Yet to Start''"
    by (auto simp: rowStatus_def normalizeStatus_blank)
  with False show ?thesis by (auto simp: completionStatus_applyRow updateStatus_idle)
qed

section \<open>Repeated topics\<close>

text \<open>
  What a row does to the record of its topic, in closed form: the subtopics and
  the projects of the row are pushed if absent and the status is the higher of
  the two in the priority order.
\<close>

lemma updateStatus_rank: "updateStatus s cur = higherStatus cur s"
  by (auto simp: updateStatus_def higherStatus_def statusRank_def)

lemma applyRow_merged:
  "applyRow si pi sti r v = merged (subToks si r) (projToks pi r) (rowStatus sti r) v"
  by (rule roadmap_item.equality)
     (simp_all add: merged_def topic_applyRow subTopics_applyRow projects_applyRow_toks
        status_applyRow updateStatus_rank)

lemma csvMerge_merged:
  "csvMerge hS hP hSt r e = merged (csvSubTopics hS r) (csvProjects hP r) (csvStatus hSt r) e"
  by (simp add: csvMerge_def merged_def updateStatus_rank)

lemma prefix_pushIfAbsent: "prefix xs (pushIfAbsent xs x)"
  by (simp add: pushIfAbsent_def)

lemma prefix_foldl_pushIfAbsent: "prefix xs (foldl pushIfAbsent xs ys)"
proof (induction ys arbitrary: xs)
  case Nil
  show ?case by simp
next
  case (Cons y ys)
  have "prefix xs (pushIfAbsent xs y)" by (rule prefix_pushIfAbsent)
  also have "prefix (pushIfAbsent xs y) (foldl pushIfAbsent (pushIfAbsent xs y) ys)"
    by (rule Cons.IH)
  finally show ?case by simp
qed

lemma items_untouched:
  assumes "topicsAreKeys m" and "k \<notin> fst ` set m"
  shows "map (\<lambda>item. if topic item = k then f item else item) (map snd m) = map snd m"
  using assms unfolding topicsAreKeys_def by (induction m) auto

lemma items_update:
  assumes "distinct (map fst m)" and "topicsAreKeys m" and "map_of m k = Some v"
  shows "map snd (AList.update k (f v) m)
           = map (\<lambda>item. if topic item = k then f item else item) (map snd m)"
  using assms
proof (induction m)
  case Nil
  then show ?case by simp
next
  case (Cons p ps)
  from Cons.prems(2) have tp: "topic (snd p) = fst p" and keys: "topicsAreKeys ps"
    by (simp_all add: topicsAreKeys_def)
  show ?case
  proof (cases "fst p = k")
    case True
    with Cons.prems(3) have v: "snd p = v" by (cases p) simp
    from Cons.prems(1) True have "k \<notin> fst ` set ps" by auto
    from items_untouched [OF keys this, of f] True tp v show ?thesis by simp
  next
    case False
    with Cons.prems(3) have "map_of ps k = Some v" by (cases p) simp
    moreover from Cons.prems(1) have "distinct (map fst ps)" by simp
    ultimately have "map snd (AList.update k (f v) ps)
           = map (\<lambda>item. if topic item = k then f item else item) (map snd ps)"
      using keys by (intro Cons.IH)
    with False tp show ?thesis by simp
  qed
qed

lemma key_has_record:
  assumes "topicsAreKeys m" and "k \<in> set (map topic (map snd m))"
  shows "\<exists>v. map_of m k = Some v"
proof -
  from assms(1) have "map topic (map snd m) = map fst m" by (rule topics_of_items)
  with assms(2) have "k \<in> fst ` set m" by simp
  then have "map_of m k \<noteq> None" by (simp add: map_of_eq_None_iff)
  then show ?thesis by auto
qed

lemma importItems_repeated_topic:
  assumes key: "importKey (importTopicIndex hs) r = Some k"
    and seen: "k \<in> set (map topic (importItems hs rows))"
  shows "importItems hs (rows @ [r]) =
           map (\<lambda>item. if topic item = k
                        then merged (subToks (importSubTopicsIndex hs) r)
                               (projToks (importProjectIndex hs) r)
                               (rowStatus (importStatusIndex hs) r) item
                        else item)
             (importItems hs rows)"
proof -
  let ?ti = "importTopicIndex hs" and ?si = "importSubTopicsIndex hs"
  let ?pi = "importProjectIndex hs" and ?sti = "importStatusIndex hs"
  let ?init = "\<lparr>topicMap = [], currentTopic = None\<rparr>"
  let ?st = "importRows ?ti ?si ?pi ?sti ?init rows"
  have known: "currentKnown ?st" using currentKnown_init by (rule currentKnown_importRows)
  have keys: "topicsAreKeys (topicMap ?st)"
    by (rule topicsAreKeys_importRows [OF currentKnown_init]) (simp add: topicsAreKeys_def)
  have dist: "distinct (map fst (topicMap ?st))"
    using keys_importRows [OF currentKnown_init, of ?ti ?si ?pi ?sti rows]
    by (simp add: distinct_foldl_pushIfAbsent)
  from seen have "k \<in> set (map topic (map snd (topicMap ?st)))" by (simp add: importItems_def)
  with keys obtain v where v: "map_of (topicMap ?st) k = Some v"
    using key_has_record by blast
  have "importRows ?ti ?si ?pi ?sti ?init (rows @ [r]) = importRow ?ti ?si ?pi ?sti ?st r"
    by (simp add: importRows_def)
  also have "\<dots> = \<lparr>topicMap = AList.update k (applyRow ?si ?pi ?sti r v) (topicMap ?st),
                     currentTopic = Some k\<rparr>"
    using known key v by (simp add: importRow_step)
  finally have "importItems hs (rows @ [r])
                  = map snd (AList.update k (applyRow ?si ?pi ?sti r v) (topicMap ?st))"
    by (simp add: importItems_def)
  also have "\<dots> = map (\<lambda>item. if topic item = k then applyRow ?si ?pi ?sti r item else item)
                      (map snd (topicMap ?st))"
    using dist keys v by (rule items_update)
  finally show ?thesis by (simp add: importItems_def applyRow_merged)
qed

lemma csvHeaderNames_append: "data \<noteq> [] \<Longrightarrow> csvHeaderNames (data @ rs) = csvHeaderNames data"
  by (cases data) (simp_all add: csvHeaderNames_def)

lemma csvItems_repeated_topic:
  assumes items: "csvItems data = Inr items"
    and key: "csvKey (topicLabel (csvHeaders data)) r = Some k"
    and seen: "k \<in> set (map topic items)"
  shows "csvItems (data @ [r]) =
           Inr (map (\<lambda>item. if topic item = k
                             then merged
                                    (csvSubTopics (findHeader (csvHeaderNames data) subtopicAlternatives) r)
                                    (csvProjects (findHeader (csvHeaderNames data) projectAlternatives) r)
                                    (csvStatus (findHeader (csvHeaderNames data) statusAlternatives) r)
                                    item
                             else item) items)"
proof -
  let ?hs = "csvHeaderNames data"
  let ?hS = "findHeader ?hs subtopicAlternatives"
  let ?hP = "findHeader ?hs projectAlternatives"
  let ?hSt = "findHeader ?hs statusAlternatives"
  from items obtain hT where h: "findHeader ?hs topicAlternatives = Some hT"
    and i: "items = map snd (foldl (csvRow hT ?hS ?hP ?hSt) [] data)"
    by (auto simp: csvItems_def Let_def split: option.splits)
  have l: "topicLabel (csvHeaders data) = hT" using h by (simp add: csvHeaders_def Let_def)
  from h have "?hs \<noteq> []" by (auto simp: findHeader_def)
  then have "data \<noteq> []" by (auto simp: csvHeaderNames_def)
  then have names: "csvHeaderNames (data @ [r]) = ?hs" by (rule csvHeaderNames_append)
  let ?m = "foldl (csvRow hT ?hS ?hP ?hSt) [] data"
  have keys: "topicsAreKeys ?m" by (rule topicsAreKeys_csvRows) (simp add: topicsAreKeys_def)
  have dist: "distinct (map fst ?m)" by (simp add: keys_csvRows distinct_foldl_pushIfAbsent)
  from seen have "k \<in> set (map topic (map snd ?m))" by (simp add: i)
  with keys obtain e where e: "map_of ?m k = Some e" using key_has_record by blast
  from key have k: "csvKey hT r = Some k" by (simp add: l)
  have "csvItems (data @ [r]) = Inr (map snd (csvRow hT ?hS ?hP ?hSt ?m r))"
    unfolding csvItems_def names Let_def h by simp
  also have "csvRow hT ?hS ?hP ?hSt ?m r = AList.update k (csvMerge ?hS ?hP ?hSt r e) ?m"
    using k e by (simp add: csvRow_step)
  also have "map snd (AList.update k (csvMerge ?hS ?hP ?hSt r e) ?m)
               = map (\<lambda>item. if topic item = k then csvMerge ?hS ?hP ?hSt r item else item)
                   (map snd ?m)"
    using dist keys e by (rule items_update)
  finally show ?thesis by (simp add: i csvMerge_merged)
qed

text \<open>
  C3: in both ingestion paths the emitted roadmap items have pairwise different
  topics, in the order in which the topics first appear in the rows. A row that
  repeats a topic already seen adds no item: the emitted list stays as it was
  but for the item of that topic, which is merged with the row, its subtopics
  and projects extended by the row's tokens that are not yet present by name
  and its status the higher of the old one and the row's in the order
  Yet to Start, In Progress, Completed. Pushing if absent gives the union of
  the names, keeps the names that were there in front and in their order, and
  repeats none.
\<close>

theorem repeated_topics_are_merged:
  "(importSheet fileBase sh = Inr d \<longrightarrow>
      distinct (map topic (roadmapItems d))
      \<and> map topic (roadmapItems d) =
          foldl pushIfAbsent []
            (List.map_filter (importKey (importTopicIndex (cleanHeaders (hd (jsonData sh)))))
               (tl (jsonData sh))))
   \<and> (csvItems data = Inr items \<longrightarrow>
      distinct (map topic items)
      \<and> map topic items =
          foldl pushIfAbsent [] (List.map_filter (csvKey (topicLabel (csvHeaders data))) data))
   \<and> (importKey (importTopicIndex hs) r = Some k \<and> k \<in> set (map topic (importItems hs rows)) \<longrightarrow>
      importItems hs (rows @ [r]) =
        map (\<lambda>item. if topic item = k
                     then merged (subToks (importSubTopicsIndex hs) r)
                            (projToks (importProjectIndex hs) r)
                            (rowStatus (importStatusIndex hs) r) item
                     else item)
          (importItems hs rows))
   \<and> (csvItems data = Inr items \<and> csvKey (topicLabel (csvHeaders data)) r' = Some k'
       \<and> k' \<in> set (map topic items) \<longrightarrow>
      csvItems (data @ [r']) =
        Inr (map (\<lambda>item. if topic item = k'
                          then merged
                                 (csvSubTopics (findHeader (csvHeaderNames data) subtopicAlternatives) r')
                                 (csvProjects (findHeader (csvHeaderNames data) projectAlternatives) r')
                                 (csvStatus (findHeader (csvHeaderNames data) statusAlternatives) r')
                                 item
                          else item) items))
   \<and> set (foldl pushIfAbsent xs ys) = set xs \<union> set ys
   \<and> prefix xs (foldl pushIfAbsent xs ys)
   \<and> (distinct xs \<longrightarrow> distinct (foldl pushIfAbsent xs ys))"
proof (intro conjI impI)
  assume a: "importSheet fileBase sh = Inr d"
  then have r: "roadmapItems d = importItems (cleanHeaders (hd (jsonData sh))) (tl (jsonData sh))"
    by (auto simp: importSheet_def Let_def split: if_splits)
  show o: "map topic (roadmapItems d) =
          foldl pushIfAbsent []
            (List.map_filter (importKey (importTopicIndex (cleanHeaders (hd (jsonData sh)))))
               (tl (jsonData sh)))"
    unfolding r by (rule importItems_topics)
  show "distinct (map topic (roadmapItems d))"
    unfolding o by (simp add: distinct_foldl_pushIfAbsent)
next
  assume a: "csvItems data = Inr items"
  then show o: "map topic items =
          foldl pushIfAbsent [] (List.map_filter (csvKey (topicLabel (csvHeaders data))) data)"
    by (rule csvItems_topics)
  show "distinct (map topic items)" unfolding o by (simp add: distinct_foldl_pushIfAbsent)
next
  assume "importKey (importTopicIndex hs) r = Some k \<and> k \<in> set (map topic (importItems hs rows))"
  then show "importItems hs (rows @ [r]) =
        map (\<lambda>item. if topic item = k
                     then merged (subToks (importSubTopicsIndex hs) r)
                            (projToks (importProjectIndex hs) r)
                            (rowStatus (importStatusIndex hs) r) item
                     else item)
          (importItems hs rows)"
    using importItems_repeated_topic by blast
next
  assume "csvItems data = Inr items \<and> csvKey (topicLabel (csvHeaders data)) r' = Some k'
       \<and> k' \<in> set (map topic items)"
  then show "csvItems (data @ [r']) =
        Inr (map (\<lambda>item. if topic item = k'
                          then merged
                                 (csvSubTopics (findHeader (csvHeaderNames data) subtopicAlternatives) r')
                                 (csvProjects (findHeader (csvHeaderNames data) projectAlternatives) r')
                                 (csvStatus (findHeader (csvHeaderNames data) statusAlternatives) r')
                                 item
                          else item) items)"
    using csvItems_repeated_topic by blast
next
  show "set (foldl pushIfAbsent xs ys) = set xs \<union> set ys" by (rule set_foldl_pushIfAbsent)
  show "prefix xs (foldl pushIfAbsent xs ys)" by (rule prefix_foldl_pushIfAbsent)
next
  assume "distinct xs"
  then show "distinct (foldl pushIfAbsent xs ys)" by (rule distinct_foldl_pushIfAbsent)
qed

theorem repeated_topics_are_merged_witness:
  "importSheet ''stacks.xlsx'' hooksSheet = Inr hooksStack
   \<and> map topic (roadmapItems hooksStack) = [''Hooks'', ''Router'']
   \<and> distinct (map topic (roadmapItems hooksStack))
   \<and> importItems (cleanHeaders (hd (jsonData hooksSheet))) (butlast (tl (jsonData hooksSheet)))
       = [hooksBefore, routerItem]
   \<and> importKey (importTopicIndex (cleanHeaders (hd (jsonData hooksSheet))))
         (last (tl (jsonData hooksSheet))) = Some ''Hooks''
   \<and> importItems (cleanHeaders (hd (jsonData hooksSheet)))
         (butlast (tl (jsonData hooksSheet)) @ [last (tl (jsonData hooksSheet))])
       = [hooksItem, routerItem]
   \<and> csvItems (butlast hooksCsv) = Inr [hooksCsvBefore, routerItem]
   \<and> csvKey (topicLabel (csvHeaders (butlast hooksCsv))) (last hooksCsv) = Some ''Hooks''
   \<and> csvItems (butlast hooksCsv @ [last hooksCsv]) = Inr [hooksCsvItem, routerItem]
   \<and> distinct (map topic [hooksCsvBefore, routerItem])
   \<and> foldl pushIfAbsent [''useState'', ''useEffect''] [''useState'', ''useRef'']
       = [''useState'', ''useEffect'', ''useRef'']"
proof -
  let ?hs = "cleanHeaders (hd (jsonData hooksSheet))"
  let ?rows = "tl (jsonData hooksSheet)"
  note inst = repeated_topics_are_merged
    [where fileBase = "''stacks.xlsx''" and sh = hooksSheet and d = hooksStack
       and data = "butlast hooksCsv" and items = "[hooksCsvBefore, routerItem]"
       and hs = ?hs and rows = "butlast ?rows" and r = "last ?rows" and k = "''Hooks''"
       and r' = "last hooksCsv" and k' = "''Hooks''"
       and xs = "[''useState'', ''useEffect'']" and ys = "[''useState'', ''useRef'']"]
  have a: "importSheet ''stacks.xlsx'' hooksSheet = Inr hooksStack" by code_simp
  have b: "importItems ?hs (butlast ?rows) = [hooksBefore, routerItem]" by code_simp
  have c: "importKey (importTopicIndex ?hs) (last ?rows) = Some ''Hooks''" by code_simp
  have d: "''Hooks'' \<in> set (map topic (importItems ?hs (butlast ?rows)))" by code_simp
  have e: "csvItems (butlast hooksCsv) = Inr [hooksCsvBefore, routerItem]" by code_simp
  have f: "csvKey (topicLabel (csvHeaders (butlast hooksCsv))) (last hooksCsv) = Some ''Hooks''"
    by code_simp
  have g: "''Hooks'' \<in> set (map topic [hooksCsvBefore, routerItem])" by code_simp
  have t: "map topic (roadmapItems hooksStack) = [''Hooks'', ''Router'']" by code_simp
  have m1: "map (\<lambda>item. if topic item = ''Hooks''
                     then merged (subToks (importSubTopicsIndex ?hs) (last ?rows))
                            (projToks (importProjectIndex ?hs) (last ?rows))
                            (rowStatus (importStatusIndex ?hs) (last ?rows)) item
                     else item)
          (importItems ?hs (butlast ?rows)) = [hooksItem, routerItem]" by code_simp
  have m2: "map (\<lambda>item. if topic item = ''Hooks''
                  then merged
                         (csvSubTopics (findHeader (csvHeaderNames (butlast hooksCsv)) subtopicAlternatives)
                            (last hooksCsv))
                         (csvProjects (findHeader (csvHeaderNames (butlast hooksCsv)) projectAlternatives)
                            (last hooksCsv))
                         (csvStatus (findHeader (csvHeaderNames (butlast hooksCsv)) statusAlternatives)
                            (last hooksCsv))
                         item
                  else item) [hooksCsvBefore, routerItem] = [hooksCsvItem, routerItem]"
    by code_simp
  have u: "set [''useState'', ''useEffect''] \<union> set [''useState'', ''useRef'']
             = set [''useState'', ''useEffect'', ''useRef'']" by auto
  have p: "foldl pushIfAbsent [''useState'', ''useEffect''] [''useState'', ''useRef'']
       = [''useState'', ''useEffect'', ''useRef'']" by code_simp
  from inst a have "distinct (map topic (roadmapItems hooksStack))" by blast
  moreover from inst c d
  have "importItems ?hs (butlast ?rows @ [last ?rows]) = [hooksItem, routerItem]"
    unfolding m1 by blast
  moreover from inst e f g
  have "csvItems (butlast hooksCsv @ [last hooksCsv]) = Inr [hooksCsvItem, routerItem]"
    unfolding m2 by blast
  moreover from inst e have "distinct (map topic [hooksCsvBefore, routerItem])" by blast
  ultimately show ?thesis using a b c e f t p by simp
qed

section \<open>Status priority\<close>

lemma rank_applyRow:
  "statusRank (completionStatus v) \<le> statusRank (completionStatus (applyRow si pi sti r v))"
  by (simp add: completionStatus_applyRow statusRank_updateStatus)

lemma rank_csvMerge:
  "statusRank (completionStatus v) \<le> statusRank (completionStatus (csvMerge hS hP hSt r v))"
  by (simp add: csvMerge_def statusRank_updateStatus)

lemma importRow_status_mono:
  assumes "currentKnown st" and "map_of (topicMap st) k = Some v"
  shows "\<exists>v'. map_of (topicMap (importRow ti si pi sti st r)) k = Some v'
            \<and> statusRank (completionStatus v) \<le> statusRank (completionStatus v')"
proof (cases "case importKey ti r of Some k \<Rightarrow> Some k | None \<Rightarrow> currentTopic st")
  case None
  with assms show ?thesis by (simp add: importRow_step)
next
  case (Some cur)
  show ?thesis
  proof (cases "cur = k")
    case True
    with Some assms show ?thesis by (simp add: importRow_step update_conv' rank_applyRow)
  next
    case False
    with Some assms show ?thesis by (simp add: importRow_step update_conv')
  qed
qed

lemma importRows_status_mono:
  "currentKnown st \<Longrightarrow> map_of (topicMap st) k = Some v \<Longrightarrow>
     \<exists>v'. map_of (topicMap (importRows ti si pi sti st rows)) k = Some v'
          \<and> statusRank (completionStatus v) \<le> statusRank (completionStatus v')"
proof (induction rows arbitrary: st v)
  case Nil
  then show ?case by (simp add: importRows_def)
next
  case (Cons r rows)
  from importRow_status_mono [OF Cons.prems, of ti si pi sti r]
  obtain u where u: "map_of (topicMap (importRow ti si pi sti st r)) k = Some u"
    and le: "statusRank (completionStatus v) \<le> statusRank (completionStatus u)" by blast
  from Cons.prems(1) have k: "currentKnown (importRow ti si pi sti st r)"
    by (rule currentKnown_importRow)
  from Cons.IH [OF k u] obtain v' where
    "map_of (topicMap (importRows ti si pi sti (importRow ti si pi sti st r) rows)) k = Some v'"
    and "statusRank (completionStatus u) \<le> statusRank (completionStatus v')" by blast
  with le show ?case by (auto simp: importRows_def)
qed

lemma csvRow_status_mono:
  assumes "map_of m k = Some v"
  shows "\<exists>v'. map_of (csvRow hT hS hP hSt m r) k = Some v'
            \<and> statusRank (completionStatus v) \<le> statusRank (completionStatus v')"
proof (cases "csvKey hT r")
  case None
  with assms show ?thesis by (simp add: csvRow_step)
next
  case (Some c)
  show ?thesis
  proof (cases "c = k")
    case True
    with Some assms show ?thesis by (simp add: csvRow_step update_conv' rank_csvMerge)
  next
    case False
    with Some assms show ?thesis by (simp add: csvRow_step update_conv')
  qed
qed

lemma csvRows_status_mono:
  "map_of m k = Some v \<Longrightarrow>
     \<exists>v'. map_of (foldl (csvRow hT hS hP hSt) m data) k = Some v'
          \<and> statusRank (completionStatus v) \<le> statusRank (completionStatus v')"
proof (induction data arbitrary: m v)
  case Nil
  then show ?case by simp
next
  case (Cons r data)
  from csvRow_status_mono [OF Cons.prems, of hT hS hP hSt r]
  obtain u where u: "map_of (csvRow hT hS hP hSt m r) k = Some u"
    and le: "statusRank (completionStatus v) \<le> statusRank (completionStatus u)" by blast
  from Cons.IH [OF u] obtain v' where
    "map_of (foldl (csvRow hT hS hP hSt) (csvRow hT hS hP hSt m r) data) k = Some v'"
    and "statusRank (completionStatus u) \<le> statusRank (completionStatus v')" by blast
  with le show ?case by auto
qed

lemma rank_Completed: "statusRank ''Completed'' \<le> statusRank s \<Longrightarrow> s = ''Completed''"
  by (simp add: statusRank_def split: if_splits)

lemma rank_InProgress: "statusRank ''In Progress'' \<le> statusRank s \<Longrightarrow> s \<noteq> ''Yet to Start''"
  by (auto simp: statusRank_def split: if_splits)

text \<open>
  C4: in both aggregators the status of a topic never moves back in the order
  "Yet to Start" < "In Progress" < "Completed". Whatever rows follow, the record
  of a topic is still there, its status has at least the rank it had, a
  "Completed" stays "Completed" and an "In Progress" does not return to "Yet to
  Start"; a "Yet to Start" signal changes nothing.
\<close>

theorem status_never_moves_back:
  "(map_of (topicMap (importRows ti si pi sti \<lparr>topicMap = [], currentTopic = None\<rparr> rows)) k = Some v
      \<longrightarrow> (\<exists>v'. map_of (topicMap (importRows ti si pi sti \<lparr>topicMap = [], currentTopic = None\<rparr>
                          (rows @ later))) k = Some v'
              \<and> statusRank (completionStatus v) \<le> statusRank (completionStatus v')
              \<and> (completionStatus v = ''Completed'' \<longrightarrow> completionStatus v' = ''Completed'')
              \<and> (completionStatus v = ''In Progress'' \<longrightarrow> completionStatus v' \<noteq> ''Yet to Start'')))
   \<and> (map_of (foldl (csvRow hT hS hP hSt) [] data) k = Some w
      \<longrightarrow> (\<exists>w'. map_of (foldl (csvRow hT hS hP hSt) [] (data @ laterData)) k = Some w'
              \<and> statusRank (completionStatus w) \<le> statusRank (completionStatus w')
              \<and> (completionStatus w = ''Completed'' \<longrightarrow> completionStatus w' = ''Completed'')
              \<and> (completionStatus w = ''In Progress'' \<longrightarrow> completionStatus w' \<noteq> ''Yet to Start'')))
   \<and> updateStatus ''Yet to Start'' cur = cur
   \<and> updateStatus s ''Completed'' = ''Completed''"
proof (intro conjI impI)
  let ?init = "\<lparr>topicMap = [], currentTopic = None\<rparr>"
  assume a: "map_of (topicMap (importRows ti si pi sti ?init rows)) k = Some v"
  have k: "currentKnown (importRows ti si pi sti ?init rows)"
    using currentKnown_init by (rule currentKnown_importRows)
  have ap: "importRows ti si pi sti ?init (rows @ later)
              = importRows ti si pi sti (importRows ti si pi sti ?init rows) later"
    by (simp add: importRows_def)
  from importRows_status_mono [OF k a, of ti si pi sti later]
  obtain v' where v': "map_of (topicMap (importRows ti si pi sti ?init (rows @ later))) k = Some v'"
    and le: "statusRank (completionStatus v) \<le> statusRank (completionStatus v')"
    unfolding ap by blast
  from le have "completionStatus v = ''Completed'' \<longrightarrow> completionStatus v' = ''Completed''"
    and "completionStatus v = ''In Progress'' \<longrightarrow> completionStatus v' \<noteq> ''Yet to Start''"
    using rank_Completed [of "completionStatus v'"] rank_InProgress [of "completionStatus v'"]
    by auto
  with v' le show "\<exists>v'. map_of (topicMap (importRows ti si pi sti ?init (rows @ later))) k = Some v'
              \<and> statusRank (completionStatus v) \<le> statusRank (completionStatus v')
              \<and> (completionStatus v = ''Completed'' \<longrightarrow> completionStatus v' = ''Completed'')
              \<and> (completionStatus v = ''In Progress'' \<longrightarrow> completionStatus v' \<noteq> ''Yet to Start'')"
    by blast
next
  assume a: "map_of (foldl (csvRow hT hS hP hSt) [] data) k = Some w"
  from csvRows_status_mono [OF a, of hT hS hP hSt laterData]
  obtain w' where w': "map_of (foldl (csvRow hT hS hP hSt) [] (data @ laterData)) k = Some w'"
    and le: "statusRank (completionStatus w) \<le> statusRank (completionStatus w')"
    by auto
  from le have "completionStatus w = ''Completed'' \<longrightarrow> completionStatus w' = ''Completed''"
    and "completionStatus w = ''In Progress'' \<longrightarrow> completionStatus w' \<noteq> ''Yet to Start''"
    using rank_Completed [of "completionStatus w'"] rank_InProgress [of "completionStatus w'"]
    by auto
  with w' le show "\<exists>w'. map_of (foldl (csvRow hT hS hP hSt) [] (data @ laterData)) k = Some w'
              \<and> statusRank (completionStatus w) \<le> statusRank (completionStatus w')
              \<and> (completionStatus w = ''Completed'' \<longrightarrow> completionStatus w' = ''Completed'')
              \<and> (completionStatus w = ''In Progress'' \<longrightarrow> completionStatus w' \<noteq> ''Yet to Start'')"
    by blast
next
  show "updateStatus ''Yet to Start'' cur = cur" by (simp add: updateStatus_def)
  show "updateStatus s ''Completed'' = ''Completed''" by (simp add: updateStatus_def)
qed

theorem status_never_moves_back_witness:
  "map_of (topicMap (importRows 0 (- 1) (- 1) 1 \<lparr>topicMap = [], currentTopic = None\<rparr> doneRows))
       ''Hooks'' = Some (bareItem ''Hooks''\<lparr>completionStatus := ''Completed''\<rparr>)
   \<and> map_of (topicMap (importRows 0 (- 1) (- 1) 1 \<lparr>topicMap = [], currentTopic = None\<rparr>
        (doneRows @ laterRows))) ''Hooks'' = Some (bareItem ''Hooks''\<lparr>completionStatus := ''Completed''\<rparr>)
   \<and> map_of (foldl (csvRow ''Topic'' None None (Some ''Status'')) [] doneCsv) ''Hooks''
        = Some (bareItem ''Hooks''\<lparr>completionStatus := ''Completed''\<rparr>)
   \<and> map_of (foldl (csvRow ''Topic'' None None (Some ''Status'')) [] (doneCsv @ laterCsv)) ''Hooks''
        = Some (bareItem ''Hooks''\<lparr>completionStatus := ''Completed''\<rparr>)"
proof -
  let ?item = "bareItem ''Hooks''\<lparr>completionStatus := ''Completed''\<rparr>"
  have a: "map_of (topicMap (importRows 0 (- 1) (- 1) 1 \<lparr>topicMap = [], currentTopic = None\<rparr> doneRows))
       ''Hooks'' = Some ?item" by code_simp
  have b: "map_of (foldl (csvRow ''Topic'' None None (Some ''Status'')) [] doneCsv) ''Hooks''
        = Some ?item" by code_simp
  have c: "completionStatus ?item = ''Completed''" by (simp add: bareItem_def)
  have a': "map_of (topicMap (importRows 0 (- 1) (- 1) 1 \<lparr>topicMap = [], currentTopic = None\<rparr>
        (doneRows @ laterRows))) ''Hooks'' = Some ?item" by code_simp
  have b': "map_of (foldl (csvRow ''Topic'' None None (Some ''Status'')) [] (doneCsv @ laterCsv)) ''Hooks''
        = Some ?item" by code_simp
  from status_never_moves_back
         [of 0 "- 1" "- 1" 1 doneRows "''Hooks''" ?item laterRows "''Topic''" None None
             "Some ''Status''" doneCsv ?item laterCsv "''Yet to Start''" "''In Progress''"]
       a b c
  have "\<exists>v'. map_of (topicMap (importRows 0 (- 1) (- 1) 1 \<lparr>topicMap = [], currentTopic = None\<rparr>
                          (doneRows @ laterRows))) ''Hooks'' = Some v'
            \<and> completionStatus v' = ''Completed''"
    by blast
  with a b a' b' show ?thesis by simp
qed

section \<open>Topic cells with surrounding blanks\<close>

text \<open>
  C8: the import path trims the topic cell before it is used as the key (see
  \<open>importKey\<close>), so its rows "Hooks" and " Hooks" make one record. The upload
  path uses the cell as it is: the same two rows make two records, with the
  topics "Hooks" and " Hooks".
\<close>

theorem upload_keeps_untrimmed_topic:
  "importItems [''Topic''] spacedRows = [bareItem ''Hooks'']
   \<and> csvItems spacedCsv = Inr [bareItem ''Hooks'', bareItem '' Hooks'']"
  by code_simp

section \<open>Projects cells\<close>

text \<open>
  C2: the import path does not split a projects cell. For the cell of the two
  lines "Todo App" and "Blog" the rule of the claim gives the two projects
  "Todo App" and "Blog", and so does the upload of the same cell; the import
  stores one project whose name is the whole cell, line feed included. In the
  upload, the row that creates a record stores its tokens without the test for
  absence: a cell that repeats the line "Todo App" gives that project twice.
\<close>

theorem import_keeps_projects_cell_unsplit:
  "foldl pushIfAbsent [] (splitTokens twoProjects) = [''Todo App'', ''Blog'']
   \<and> map projects (importItems [''Topic'', ''Projects''] [[''Hooks'', twoProjects]])
       = [[twoProjects]]
   \<and> twoProjects \<noteq> ''Todo App''
   \<and> csvItems [[(''Topic'', ''Hooks''), (''Projects'', twoProjects)]]
       = Inr [bareItem ''Hooks''\<lparr>projects := [''Todo App'', ''Blog'']\<rparr>]
   \<and> foldl pushIfAbsent [] (splitTokens sameProjectTwice) = [''Todo App'']
   \<and> csvItems [[(''Topic'', ''Hooks''), (''Projects'', sameProjectTwice)]]
       = Inr [bareItem ''Hooks''\<lparr>projects := [''Todo App'', ''Todo App'']\<rparr>]"
  by code_simp

section \<open>Import against convert and upload\<close>

text \<open>
  C1: the two paths disagree on the sheet "Frontend". Its second data row leaves
  the topic cell empty and carries the subtopic "useEffect": the import adds it
  to "Hooks", the topic of the row above; the converter leaves the row out of
  the CSV file, so that the upload of that file never sees "useEffect". Both
  paths emit the topics "Hooks" and "Router", but the subtopics of "Hooks" are
  three after the import and two after convert and upload.
\<close>

theorem convert_drops_carried_rows:
  "importSheet ''stacks.xlsx'' hooksSheet = Inr hooksStack
   \<and> convertSheet hooksSheet = Inr hooksCsvData
   \<and> csvContent hooksCsvData = hooksCsvText
   \<and> map (map snd) hooksCsv = tl hooksCsvData
   \<and> map (map fst) hooksCsv = replicate 3 (hd hooksCsvData)
   \<and> processCSVFile hooksCsv ''Frontend'' [] [] = Inr (hooksCsvStack, [hooksCsvStack])
   \<and> roadmapItems hooksStack = [hooksItem, routerItem]
   \<and> roadmapItems hooksCsvStack = [hooksCsvItem, routerItem]
   \<and> topic hooksItem = topic hooksCsvItem
   \<and> subTopics hooksItem = [''useState'', ''useEffect'', ''useRef'']
   \<and> subTopics hooksCsvItem = [''useState'', ''useRef'']
   \<and> set (subTopics hooksItem) \<noteq> set (subTopics hooksCsvItem)"
proof -
  have a: "importSheet ''stacks.xlsx'' hooksSheet = Inr hooksStack" by code_simp
  have b: "convertSheet hooksSheet = Inr hooksCsvData" by code_simp
  have x: "csvContent hooksCsvData = hooksCsvText" by code_simp
  have c: "map (map snd) hooksCsv = tl hooksCsvData"
    "map (map fst) hooksCsv = replicate 3 (hd hooksCsvData)" by code_simp+
  have d: "processCSVFile hooksCsv ''Frontend'' [] [] = Inr (hooksCsvStack, [hooksCsvStack])"
    by code_simp
  have e: "roadmapItems hooksStack = [hooksItem, routerItem]"
    "roadmapItems hooksCsvStack = [hooksCsvItem, routerItem]"
    by (simp_all add: hooksStack_def hooksCsvStack_def)
  have f: "topic hooksItem = topic hooksCsvItem"
    "subTopics hooksItem = [''useState'', ''useEffect'', ''useRef'']"
    "subTopics hooksCsvItem = [''useState'', ''useRef'']"
    by (simp_all add: hooksItem_def hooksCsvItem_def)
  have "''useEffect'' \<in> set (subTopics hooksItem)" by (simp add: f)
  moreover have "''useEffect'' \<notin> set (subTopics hooksCsvItem)" by (simp add: f)
  ultimately have g: "set (subTopics hooksItem) \<noteq> set (subTopics hooksCsvItem)" by metis
  from a b x c d e f g show ?thesis by simp
qed

section \<open>The sink\<close>





lemma validTechStack_cast:
  "validTechStack (castTechStack d)
     = (trim (name d) \<noteq> [] \<and> list_all validItem (map castItem (roadmapItems d)))"
  by (simp add: validTechStack_def castTechStack_def)








section \<open>Deleting a roadmap item\<close>

text \<open>
  C10: when the TechStack of the request exists, \<^verbatim>\<open>deleteRoadmapItem\<close> answers
  200 with the document whose roadmapItems are the previous items without those
  whose id is \<open>itemId\<close>, and stores it. When no item has that id the document
  and the collection are what they were: a missing item is not an error.
\<close>

theorem deleteRoadmapItem_never_item_not_found:
  assumes "db id' = Some techStack"
  shows "deleteRoadmapItem db id' itemId =
           (db(id' \<mapsto> techStack\<lparr>roadmapItems :=
                          filter (\<lambda>item. item_id item \<noteq> itemId) (roadmapItems techStack)\<rparr>),
            Success200 (techStack\<lparr>roadmapItems :=
                          filter (\<lambda>item. item_id item \<noteq> itemId) (roadmapItems techStack)\<rparr>))
         \<and> ((\<forall>item\<in>set (roadmapItems techStack). item_id item \<noteq> itemId) \<longrightarrow>
              deleteRoadmapItem db id' itemId = (db, Success200 techStack))"
proof -
  have "(\<forall>item\<in>set (roadmapItems techStack). item_id item \<noteq> itemId) \<Longrightarrow>
        techStack\<lparr>roadmapItems :=
          filter (\<lambda>item. item_id item \<noteq> itemId) (roadmapItems techStack)\<rparr> = techStack"
    by simp
  moreover have "db(id' \<mapsto> techStack) = db" using assms by (rule map_upd_triv)
  ultimately show ?thesis using assms by (auto simp: deleteRoadmapItem_def Let_def)
qed

theorem deleteRoadmapItem_never_item_not_found_witness:
  "[''s1'' \<mapsto> storedDoc] ''s1'' = Some storedDoc
   \<and> map item_id (roadmapItems storedDoc) = [''a1'', ''a2'']
   \<and> deleteRoadmapItem [''s1'' \<mapsto> storedDoc] ''s1'' ''zz''
       = ([''s1'' \<mapsto> storedDoc], Success200 storedDoc)
   \<and> snd (deleteRoadmapItem [''s1'' \<mapsto> storedDoc] ''s1'' ''a1'')
       = Success200 (storedDoc\<lparr>roadmapItems := tl (roadmapItems storedDoc)\<rparr>)"
proof -
  have h: "[''s1'' \<mapsto> storedDoc] ''s1'' = Some storedDoc" by simp
  have q: "\<forall>item\<in>set (roadmapItems storedDoc). item_id item \<noteq> ''zz''"
    by (simp add: storedDoc_def)
  have e: "filter (\<lambda>item. item_id item \<noteq> ''a1'') (roadmapItems storedDoc)
             = tl (roadmapItems storedDoc)"
    by (simp add: storedDoc_def)
  from deleteRoadmapItem_never_item_not_found
         [of "[''s1'' \<mapsto> storedDoc]" "''s1''" storedDoc "''zz''"]
       deleteRoadmapItem_never_item_not_found
         [of "[''s1'' \<mapsto> storedDoc]" "''s1''" storedDoc "''a1''"]
  show ?thesis using h q e by (simp add: storedDoc_def)
qed

end
